theory Spec2Isabelle
  imports Main "HOL-Library.AList"
begin

section \<open>Values and exceptions\<close>

text \<open>
  The program is Python. Text is a list of characters; a parsed JSON document is a value
  of \<open>json\<close>. A Python \<open>dict\<close> keeps its keys in insertion order and holds each key
  once, so it is an association list that is only ever extended with \<open>dict_set\<close>.
  A number with a fraction or an exponent is kept as its literal: no claim looks inside it.
\<close>

datatype json =
    JNull
  | JBool bool
  | JInt int
  | JFloat string
  | JStr string
  | JArr "json list"
  | JObj "(string \<times> json) list"

text \<open>
  Exceptions are values. \<open>JSONDecodeError\<close> is the only class the extractor catches;
  the others are what the library and the interpreter raise besides.
\<close>

datatype exn =
    JSONDecodeError
  | RecursionError
  | KeyError string
  | TypeError
  | AttributeError
  | Exception string

type_synonym loads_fn = "string \<Rightarrow> exn + json"

definition dict_get :: "(string \<times> json) list \<Rightarrow> string \<Rightarrow> json option" where
  "dict_get kvs k = map_of kvs k"

definition dict_set :: "string \<Rightarrow> json \<Rightarrow> (string \<times> json) list \<Rightarrow> (string \<times> json) list" where
  "dict_set k v kvs = AList.update k v kvs"

section \<open>String primitives of the interpreter\<close>

text \<open>
  \<open>str.isspace\<close>, which \<open>str.strip()\<close> and the regular expression class \<open>\s\<close> both use:
  the code points 9 to 13, 28 to 32, 133 and 160 among the first 256.
\<close>

definition is_space :: "char \<Rightarrow> bool" where
  "is_space c = (c \<in> set [CHR 0x09, CHR 0x0A, CHR 0x0B, CHR 0x0C, CHR 0x0D,
                            CHR 0x1C, CHR 0x1D, CHR 0x1E, CHR 0x1F, CHR 0x20,
                            CHR 0x85, CHR 0xA0])"

definition strip :: "string \<Rightarrow> string" where
  "strip s = rev (dropWhile is_space (rev (dropWhile is_space s)))"

definition startswith :: "string \<Rightarrow> string \<Rightarrow> bool" where
  "startswith s p = (take (length p) s = p)"

definition endswith :: "string \<Rightarrow> string \<Rightarrow> bool" where
  "endswith s p = (length p \<le> length s \<and> drop (length s - length p) s = p)"

text \<open>\<open>s.find(c)\<close>: the index of the first occurrence, or -1.\<close>

fun find :: "char \<Rightarrow> string \<Rightarrow> int" where
  "find c [] = -1"
| "find c (x # xs) = (if x = c then 0 else (let r = find c xs in if r = -1 then -1 else r + 1))"

text \<open>\<open>s.rfind(c)\<close>: the index of the last occurrence, or -1.\<close>

definition rfind :: "char \<Rightarrow> string \<Rightarrow> int" where
  "rfind c s = (let r = find c (rev s) in if r = -1 then -1 else int (length s) - 1 - r)"

text \<open>\<open>s[a:b]\<close> for indices that are not negative; empty when \<open>b \<le> a\<close>.\<close>

definition slice :: "string \<Rightarrow> int \<Rightarrow> int \<Rightarrow> string" where
  "slice s a b = take (nat b - nat a) (drop (nat a) s)"

text \<open>\<open>s.split('\n')\<close>: never empty, \<open>''.split('\n')\<close> is \<open>['']\<close>.\<close>

fun split_lines :: "string \<Rightarrow> string list" where
  "split_lines [] = [[]]"
| "split_lines (c # s) =
     (if c = CHR 0x0A then [] # split_lines s
      else (case split_lines s of [] \<Rightarrow> [[c]] | l # ls \<Rightarrow> (c # l) # ls))"

text \<open>\<open>'\n'.join(ls)\<close>.\<close>

fun join_lines :: "string list \<Rightarrow> string" where
  "join_lines [] = []"
| "join_lines [l] = l"
| "join_lines (l # m # ls) = l @ CHR 0x0A # join_lines (m # ls)"

section \<open>The two regular expressions\<close>

text \<open>
  \<open>re.findall(r'```(?:json)?\n(.*?)\n```', cleaned, re.DOTALL)\<close>.
  \<open>until_close t\<close> is the lazy group \<open>(.*?)\<close> followed by the closing \<open>\n```\<close>: the text
  before the first place where the closing matches.
\<close>

definition fence_close :: string where
  "fence_close = [CHR 0x0A, CHR 0x60, CHR 0x60, CHR 0x60]"

fun until_close :: "string \<Rightarrow> string option" where
  "until_close [] = None"
| "until_close (c # t) =
     (if startswith (c # t) fence_close then Some []
      else map_option (\<lambda>g. c # g) (until_close t))"

text \<open>
  A match that starts at the head of \<open>s\<close>: the opening fence, the optional tag
  (tried first with the tag, then without), a newline, the group and the closing.
  The result is the group and the length of the whole match.
\<close>

definition match_fence :: "string \<Rightarrow> (string \<times> nat) option" where
  "match_fence s =
     (if startswith s [CHR 0x60, CHR 0x60, CHR 0x60] then
        (let r = drop 3 s;
             tagged = (if startswith r (''json'' @ [CHR 0x0A])
                       then map_option (\<lambda>g. (g, 8 + length g + 4)) (until_close (drop 5 r))
                       else None)
         in case tagged of
              Some m \<Rightarrow> Some m
            | None \<Rightarrow>
               (if startswith r [CHR 0x0A]
                then map_option (\<lambda>g. (g, 4 + length g + 4)) (until_close (drop 1 r))
                else None))
      else None)"

text \<open>
  \<open>findall\<close> goes through the text from left to right; after a match it goes on behind
  it. \<open>skip\<close> counts the characters of the last match that are still to pass.
\<close>

fun findall_from :: "nat \<Rightarrow> string \<Rightarrow> string list" where
  "findall_from skip [] = []"
| "findall_from (Suc skip) (c # s) = findall_from skip s"
| "findall_from 0 (c # s) =
     (case match_fence (c # s) of
        Some (g, n) \<Rightarrow> g # findall_from (n - 1) s
      | None \<Rightarrow> findall_from 0 s)"

definition findall_blocks :: "string \<Rightarrow> string list" where
  "findall_blocks s = findall_from 0 s"

text \<open>
  \<open>re.sub(r',\s*([}\]])', r'\1', s)\<close>: a comma, the white space after it and then a
  closing brace or bracket are replaced by the closing character alone; the scan goes
  on behind the closing character.
\<close>

fun sub_from :: "nat \<Rightarrow> string \<Rightarrow> string" where
  "sub_from skip [] = []"
| "sub_from (Suc skip) (c # s) = sub_from skip s"
| "sub_from 0 (c # s) =
     (if c = CHR '','' then
        (case dropWhile is_space s of
           [] \<Rightarrow> c # sub_from 0 s
         | d # r \<Rightarrow>
            (if d = CHR ''}'' \<or> d = CHR '']''
             then d # sub_from (length s - length r) s
             else c # sub_from 0 s))
      else c # sub_from 0 s)"

definition fix_commas :: "string \<Rightarrow> string" where
  "fix_commas s = sub_from 0 s"

section \<open>The extractor\<close>

text \<open>
  \<open>json.loads\<close> is the library's decoder, a parameter \<open>loads\<close> of everything below.
  \<open>attempt\<close> is one \<open>try: return json.loads(t)\<close> with its
  \<open>except json.JSONDecodeError\<close>: \<open>Inr (Some v)\<close> returns \<open>v\<close>, \<open>Inr None\<close> falls
  through to the next strategy, and any other exception leaves the function.
\<close>

definition attempt :: "loads_fn \<Rightarrow> string \<Rightarrow> exn + json option" where
  "attempt loads t =
     (case loads t of
        Inr v \<Rightarrow> Inr (Some v)
      | Inl e \<Rightarrow> (if e = JSONDecodeError then Inr None else Inl e))"

text \<open>Strategy 2: the loop over the code blocks.\<close>

fun try_blocks :: "loads_fn \<Rightarrow> string list \<Rightarrow> exn + json option" where
  "try_blocks loads [] = Inr None"
| "try_blocks loads (block # blocks) =
     (case attempt loads (strip block) of
        Inr None \<Rightarrow> try_blocks loads blocks
      | r \<Rightarrow> r)"

text \<open>Strategies 3 and 4: the slice from the first \<open>{\<close> to the last \<open>}\<close>, then the repair.\<close>

definition try_braces :: "loads_fn \<Rightarrow> string \<Rightarrow> exn + json option" where
  "try_braces loads cleaned =
     (let start_idx = find CHR ''{'' cleaned;
          end_idx = rfind CHR ''}'' cleaned
      in if start_idx \<noteq> -1 \<and> end_idx \<noteq> -1 then
           (let potential_json = slice cleaned start_idx (end_idx + 1)
            in case attempt loads potential_json of
                 Inr None \<Rightarrow> attempt loads (fix_commas potential_json)
               | r \<Rightarrow> r)
         else Inr None)"

text \<open>
  Strategy 5 (src/app.py only): the loop over the lines, with its two variables
  \<open>in_json\<close> and \<open>json_lines\<close>.
\<close>

fun line_scan :: "loads_fn \<Rightarrow> bool \<Rightarrow> string list \<Rightarrow> string list \<Rightarrow> exn + json option" where
  "line_scan loads in_json json_lines [] = Inr None"
| "line_scan loads in_json json_lines (line # lines) =
     (if startswith (strip line) ''{'' \<or> in_json then
        (if endswith (strip line) ''}'' then
           (case attempt loads (join_lines (json_lines @ [line])) of
              Inr None \<Rightarrow> line_scan loads True (json_lines @ [line]) lines
            | r \<Rightarrow> r)
         else line_scan loads True (json_lines @ [line]) lines)
      else line_scan loads in_json json_lines lines)"

definition error_message :: string where
  "error_message = ''Failed to extract valid JSON from response''"

text \<open>src/app.py, \<open>extract_json_from_response\<close>.\<close>

definition app_extract_json_from_response :: "loads_fn \<Rightarrow> string \<Rightarrow> exn + json" where
  "app_extract_json_from_response loads response =
     (let cleaned = strip response in
      case attempt loads cleaned of
        Inl e \<Rightarrow> Inl e
      | Inr (Some v) \<Rightarrow> Inr v
      | Inr None \<Rightarrow>
       (case try_blocks loads (findall_blocks cleaned) of
          Inl e \<Rightarrow> Inl e
        | Inr (Some v) \<Rightarrow> Inr v
        | Inr None \<Rightarrow>
         (case try_braces loads cleaned of
            Inl e \<Rightarrow> Inl e
          | Inr (Some v) \<Rightarrow> Inr v
          | Inr None \<Rightarrow>
           (case line_scan loads False [] (split_lines cleaned) of
              Inl e \<Rightarrow> Inl e
            | Inr (Some v) \<Rightarrow> Inr v
            | Inr None \<Rightarrow>
               Inr (JObj [(''error'', JStr error_message),
                          (''raw_response'',
                           JStr (if length cleaned > 500 then take 500 cleaned @ ''...''
                                 else cleaned))])))))"

text \<open>src/app2.py, \<open>extract_json_from_response\<close>: no line scan, and the marker always.\<close>

definition app2_extract_json_from_response :: "loads_fn \<Rightarrow> string \<Rightarrow> exn + json" where
  "app2_extract_json_from_response loads response =
     (let cleaned = strip response in
      case attempt loads cleaned of
        Inl e \<Rightarrow> Inl e
      | Inr (Some v) \<Rightarrow> Inr v
      | Inr None \<Rightarrow>
       (case try_blocks loads (findall_blocks cleaned) of
          Inl e \<Rightarrow> Inl e
        | Inr (Some v) \<Rightarrow> Inr v
        | Inr None \<Rightarrow>
         (case try_braces loads cleaned of
            Inl e \<Rightarrow> Inl e
          | Inr (Some v) \<Rightarrow> Inr v
          | Inr None \<Rightarrow>
             Inr (JObj [(''error'', JStr error_message),
                        (''raw_response'', JStr (take 500 cleaned @ ''...''))]))))"

section \<open>A model of the library's decoder\<close>

text \<open>
  \<open>json_loads limit\<close> models \<open>json.loads\<close> on a \<open>str\<close>, for the concrete runs below:
  the JSON grammar as the decoder reads it (white space is space, tab, line feed and
  carriage return only; strict strings; \<open>NaN\<close>, \<open>Infinity\<close> and \<open>-Infinity\<close> accepted;
  a later duplicate key overwrites the earlier value). Every syntax error is
  \<open>JSONDecodeError\<close>. The decoder calls itself for each nested array or object and the
  interpreter bounds that depth: opening a container \<open>limit\<close> levels deep or deeper raises
  \<open>RecursionError\<close>. An escape \<open>\uXXXX\<close> above U+00FF has no character in this model and
  is refused; no text below contains one.
\<close>

datatype token =
    TLBrace | TRBrace | TLBracket | TRBracket | TComma | TColon
  | TVal json
  | TError

definition is_digit :: "char \<Rightarrow> bool" where
  "is_digit c = (c \<in> set ''0123456789'')"

definition digit_val :: "char \<Rightarrow> nat" where
  "digit_val c = of_char c - 48"

definition hex_val :: "char \<Rightarrow> nat option" where
  "hex_val c =
     (if is_digit c then Some (digit_val c)
      else if c \<in> set ''abcdef'' then Some (of_char c - 87)
      else if c \<in> set ''ABCDEF'' then Some (of_char c - 55)
      else None)"

definition hex4 :: "string \<Rightarrow> char option" where
  "hex4 h =
     (case map hex_val h of
        [Some a, Some b, Some c, Some d] \<Rightarrow>
          (if a = 0 \<and> b = 0 then Some (char_of (16 * c + d)) else None)
      | _ \<Rightarrow> None)"

definition unescape :: "char \<Rightarrow> char option" where
  "unescape e =
     (if e = CHR 0x22 then Some (CHR 0x22)
      else if e = CHR 0x5C then Some (CHR 0x5C)
      else if e = CHR ''/'' then Some (CHR ''/'')
      else if e = CHR ''b'' then Some (CHR 0x08)
      else if e = CHR ''f'' then Some (CHR 0x0C)
      else if e = CHR ''n'' then Some (CHR 0x0A)
      else if e = CHR ''r'' then Some (CHR 0x0D)
      else if e = CHR ''t'' then Some (CHR 0x09)
      else None)"

text \<open>
  The body of a string literal, behind the opening quote: the decoded text and the
  number of characters read, the closing quote included.
\<close>

fun scan_string :: "string \<Rightarrow> (string \<times> nat) option" where
  "scan_string [] = None"
| "scan_string (c # s) =
     (if c = CHR 0x22 then Some ([], 1)
      else if c = CHR 0x5C then
        (case s of
           [] \<Rightarrow> None
         | e # s' \<Rightarrow>
            (if e = CHR ''u'' then
               (case hex4 (take 4 s') of
                  None \<Rightarrow> None
                | Some ch \<Rightarrow> map_option (\<lambda>(r, n). (ch # r, n + 6)) (scan_string (drop 4 s')))
             else
               (case unescape e of
                  None \<Rightarrow> None
                | Some ch \<Rightarrow> map_option (\<lambda>(r, n). (ch # r, n + 2)) (scan_string s'))))
      else if (of_char c :: nat) < 32 then None
      else map_option (\<lambda>(r, n). (c # r, n + 1)) (scan_string s))"

definition digits_val :: "string \<Rightarrow> int" where
  "digits_val ds = foldl (\<lambda>a d. 10 * a + int (digit_val d)) 0 ds"

text \<open>
  The number pattern \<open>(-?(?:0|[1-9]\d*))(\.\d+)?([eE][-+]?\d+)?\<close> at the head of the
  text: the value and the number of characters matched.
\<close>

definition scan_number :: "string \<Rightarrow> (json \<times> nat) option" where
  "scan_number s =
     (let neg = startswith s ''-'';
          s0 = (if neg then drop 1 s else s);
          ds = (if startswith s0 ''0'' then ''0'' else takeWhile is_digit s0)
      in if ds = [] then None
         else
           (let s1 = drop (length ds) s0;
                fs = (if startswith s1 ''.'' then takeWhile is_digit (drop 1 s1) else []);
                frac = (if fs = [] then [] else CHR ''.'' # fs);
                s2 = drop (length frac) s1;
                sg = (if startswith s2 ''e'' \<or> startswith s2 ''E'' then
                        (if startswith (drop 1 s2) ''+'' \<or> startswith (drop 1 s2) ''-''
                         then take 2 s2 else take 1 s2)
                      else []);
                es = (if sg = [] then [] else takeWhile is_digit (drop (length sg) s2));
                ex = (if es = [] then [] else sg @ es);
                lexeme = (if neg then ''-'' else []) @ ds @ frac @ ex
            in if frac = [] \<and> ex = []
               then Some (JInt (if neg then - digits_val ds else digits_val ds), length lexeme)
               else Some (JFloat lexeme, length lexeme)))"

text \<open>The scanner: what starts at each position, in the order the decoder asks.\<close>

fun lex_from :: "nat \<Rightarrow> string \<Rightarrow> token list" where
  "lex_from skip [] = []"
| "lex_from (Suc skip) (c # s) = lex_from skip s"
| "lex_from 0 (c # s) =
     (if c \<in> set [CHR 0x20, CHR 0x09, CHR 0x0A, CHR 0x0D] then lex_from 0 s
      else if c = CHR ''{'' then TLBrace # lex_from 0 s
      else if c = CHR ''}'' then TRBrace # lex_from 0 s
      else if c = CHR ''['' then TLBracket # lex_from 0 s
      else if c = CHR '']'' then TRBracket # lex_from 0 s
      else if c = CHR '','' then TComma # lex_from 0 s
      else if c = CHR '':'' then TColon # lex_from 0 s
      else if c = CHR 0x22 then
        (case scan_string s of
           None \<Rightarrow> [TError]
         | Some (str, n) \<Rightarrow> TVal (JStr str) # lex_from n s)
      else if startswith (c # s) ''null'' then TVal JNull # lex_from 3 s
      else if startswith (c # s) ''true'' then TVal (JBool True) # lex_from 3 s
      else if startswith (c # s) ''false'' then TVal (JBool False) # lex_from 4 s
      else
        (case scan_number (c # s) of
           Some (v, n) \<Rightarrow> TVal v # lex_from (n - 1) s
         | None \<Rightarrow>
            (if startswith (c # s) ''NaN'' then TVal (JFloat ''NaN'') # lex_from 2 s
             else if startswith (c # s) ''Infinity'' then TVal (JFloat ''Infinity'') # lex_from 7 s
             else if startswith (c # s) ''-Infinity'' then TVal (JFloat ''-Infinity'') # lex_from 8 s
             else [TError])))"

text \<open>
  The grammar, with the decoder's call stack made explicit: one frame for each array or
  object that is open, and the place in the grammar.
\<close>

datatype frame = FArr "json list" | FObj "(string \<times> json) list" string

datatype pstate = PValue | PArrStart | PObjStart | PKey | PColon | PAfter | PDone json

text \<open>A value is complete: it goes into the innermost open container, or is the result.\<close>

fun put_value :: "json \<Rightarrow> frame list \<Rightarrow> pstate \<times> frame list" where
  "put_value v [] = (PDone v, [])"
| "put_value v (FArr xs # st) = (PAfter, FArr (xs @ [v]) # st)"
| "put_value v (FObj kvs k # st) = (PAfter, FObj (dict_set k v kvs) [] # st)"

fun set_key :: "string \<Rightarrow> frame list \<Rightarrow> frame list" where
  "set_key k (FObj kvs k0 # st) = FObj kvs k # st"
| "set_key k st = st"

fun run :: "nat \<Rightarrow> pstate \<Rightarrow> frame list \<Rightarrow> token list \<Rightarrow> exn + json" where
  "run limit p st [] = (case p of PDone v \<Rightarrow> Inr v | _ \<Rightarrow> Inl JSONDecodeError)"
| "run limit p st (t # ts) =
     (if p = PValue \<or> p = PArrStart then
        (case t of
           TVal v \<Rightarrow> (case put_value v st of (p', st') \<Rightarrow> run limit p' st' ts)
         | TLBracket \<Rightarrow>
             (if length st < limit then run limit PArrStart (FArr [] # st) ts
              else Inl RecursionError)
         | TLBrace \<Rightarrow>
             (if length st < limit then run limit PObjStart (FObj [] [] # st) ts
              else Inl RecursionError)
         | TRBracket \<Rightarrow>
             (case (p, st) of
                (PArrStart, FArr xs # st') \<Rightarrow>
                  (case put_value (JArr xs) st' of (p', st'') \<Rightarrow> run limit p' st'' ts)
              | _ \<Rightarrow> Inl JSONDecodeError)
         | _ \<Rightarrow> Inl JSONDecodeError)
      else if p = PObjStart \<or> p = PKey then
        (case t of
           TVal (JStr k) \<Rightarrow> run limit PColon (set_key k st) ts
         | TRBrace \<Rightarrow>
             (case (p, st) of
                (PObjStart, FObj kvs k # st') \<Rightarrow>
                  (case put_value (JObj kvs) st' of (p', st'') \<Rightarrow> run limit p' st'' ts)
              | _ \<Rightarrow> Inl JSONDecodeError)
         | _ \<Rightarrow> Inl JSONDecodeError)
      else if p = PColon then
        (case t of TColon \<Rightarrow> run limit PValue st ts | _ \<Rightarrow> Inl JSONDecodeError)
      else if p = PAfter then
        (case (t, st) of
           (TComma, FArr xs # st') \<Rightarrow> run limit PValue st ts
         | (TComma, FObj kvs k # st') \<Rightarrow> run limit PKey st ts
         | (TRBracket, FArr xs # st') \<Rightarrow>
             (case put_value (JArr xs) st' of (p', st'') \<Rightarrow> run limit p' st'' ts)
         | (TRBrace, FObj kvs k # st') \<Rightarrow>
             (case put_value (JObj kvs) st' of (p', st'') \<Rightarrow> run limit p' st'' ts)
         | _ \<Rightarrow> Inl JSONDecodeError)
      else Inl JSONDecodeError)"

definition json_loads :: "nat \<Rightarrow> string \<Rightarrow> exn + json" where
  "json_loads limit s = run limit PValue [] (lex_from 0 s)"

section \<open>Operations of the interpreter on parsed values\<close>

text \<open>
  What the interpreter does with a value whose type the code did not check. Three
  builtins are parameters, kept together in \<open>interp\<close>: \<open>str_of\<close> is \<open>str(v)\<close> for a value
  that is not a string, \<open>float_true\<close> is the truth value of a float given by its literal,
  and \<open>exn_text\<close> is \<open>str(e)\<close> for an exception.
\<close>

record interp =
  str_of :: "json \<Rightarrow> string"
  float_true :: "string \<Rightarrow> bool"
  exn_text :: "exn \<Rightarrow> string"

text \<open>
  For the concrete runs below. They hold no float, format strings only and ask for no
  exception text, so none of the three builtins is consulted and the results are the
  same for every \<open>interp\<close>.
\<close>

definition plain_interp :: interp where
  "plain_interp = \<lparr>str_of = (\<lambda>v. []), float_true = (\<lambda>l. True), exn_text = (\<lambda>e. [])\<rparr>"

text \<open>\<open>str(v)\<close>, which is also what an f-string puts in for \<open>{v}\<close>.\<close>

definition py_str :: "interp \<Rightarrow> json \<Rightarrow> string" where
  "py_str ip v = (case v of JStr s \<Rightarrow> s | _ \<Rightarrow> str_of ip v)"

text \<open>The truth value of \<open>v\<close> in \<open>if v\<close> and \<open>not v\<close>.\<close>

definition py_truthy :: "interp \<Rightarrow> json \<Rightarrow> bool" where
  "py_truthy ip v =
     (case v of
        JNull \<Rightarrow> False
      | JBool b \<Rightarrow> b
      | JInt i \<Rightarrow> i \<noteq> 0
      | JFloat l \<Rightarrow> float_true ip l
      | JStr s \<Rightarrow> s \<noteq> []
      | JArr xs \<Rightarrow> xs \<noteq> []
      | JObj kvs \<Rightarrow> kvs \<noteq> [])"

text \<open>\<open>v.get(key, default)\<close>: only a dict has the method.\<close>

definition py_get :: "json \<Rightarrow> string \<Rightarrow> json \<Rightarrow> exn + json" where
  "py_get v key dflt =
     (case v of
        JObj kvs \<Rightarrow> Inr (case dict_get kvs key of Some x \<Rightarrow> x | None \<Rightarrow> dflt)
      | _ \<Rightarrow> Inl AttributeError)"

text \<open>\<open>v[key]\<close> with a string key.\<close>

definition py_index :: "json \<Rightarrow> string \<Rightarrow> exn + json" where
  "py_index v key =
     (case v of
        JObj kvs \<Rightarrow> (case dict_get kvs key of Some x \<Rightarrow> Inr x | None \<Rightarrow> Inl (KeyError key))
      | _ \<Rightarrow> Inl TypeError)"

text \<open>\<open>for x in v\<close>: the elements of a list, the keys of a dict, the characters of a string.\<close>

definition py_iter :: "json \<Rightarrow> exn + json list" where
  "py_iter v =
     (case v of
        JArr xs \<Rightarrow> Inr xs
      | JObj kvs \<Rightarrow> Inr (map (\<lambda>kv. JStr (fst kv)) kvs)
      | JStr s \<Rightarrow> Inr (map (\<lambda>c. JStr [c]) s)
      | _ \<Rightarrow> Inl TypeError)"

fun is_substring :: "string \<Rightarrow> string \<Rightarrow> bool" where
  "is_substring p [] = (p = [])"
| "is_substring p (c # s) = (startswith (c # s) p \<or> is_substring p s)"

text \<open>\<open>key in v\<close> with a string key.\<close>

definition py_in :: "string \<Rightarrow> json \<Rightarrow> exn + bool" where
  "py_in key v =
     (case v of
        JObj kvs \<Rightarrow> Inr (key \<in> set (map fst kvs))
      | JArr xs \<Rightarrow> Inr (JStr key \<in> set xs)
      | JStr s \<Rightarrow> Inr (is_substring key s)
      | _ \<Rightarrow> Inl TypeError)"

text \<open>\<open>v[key] = x\<close> with a string key.\<close>

definition py_setitem :: "json \<Rightarrow> string \<Rightarrow> json \<Rightarrow> exn + json" where
  "py_setitem v key x =
     (case v of
        JObj kvs \<Rightarrow> Inr (JObj (dict_set key x kvs))
      | _ \<Rightarrow> Inl TypeError)"

text \<open>\<open>s.upper()\<close> on the letters a to z; the tokens compared below are ASCII.\<close>

definition py_upper :: "string \<Rightarrow> string" where
  "py_upper s =
     map (\<lambda>c. if c \<in> set ''abcdefghijklmnopqrstuvwxyz''
              then char_of (of_char c - (32::nat)) else c) s"

text \<open>The loop \<open>for x in xs\<close> with a body that may raise: it stops at the first exception.\<close>

fun for_each :: "('a \<Rightarrow> exn + 'b) \<Rightarrow> 'a list \<Rightarrow> exn + 'b list" where
  "for_each f [] = Inr []"
| "for_each f (x # xs) =
     (case f x of
        Inl e \<Rightarrow> Inl e
      | Inr y \<Rightarrow> (case for_each f xs of Inl e \<Rightarrow> Inl e | Inr ys \<Rightarrow> Inr (y # ys)))"

section \<open>Schema generation\<close>

text \<open>
  \<open>generate_schema\<close>, the same text in both files but for the extractor it calls. The call
  of the language model is outside the program: \<open>invoked\<close> is its outcome, the text it
  returned or the exception it raised. \<open>except Exception\<close> catches whatever the body raises.
\<close>

definition generate_schema_with ::
  "(string \<Rightarrow> exn + json) \<Rightarrow> interp \<Rightarrow> exn + string \<Rightarrow> json" where
  "generate_schema_with extract ip invoked =
     (let body =
        (case invoked of
           Inl e \<Rightarrow> Inl e
         | Inr response \<Rightarrow>
            (case extract response of
               Inl e \<Rightarrow> Inl e
             | Inr result \<Rightarrow>
                (case py_in ''error'' result of
                   Inl e \<Rightarrow> Inl e
                 | Inr True \<Rightarrow> py_setitem result ''raw_response'' (JStr (take 1000 response))
                 | Inr False \<Rightarrow> Inr result)))
      in case body of
           Inr result \<Rightarrow> result
         | Inl e \<Rightarrow>
            JObj [(''error'', JStr (''Schema generation failed: '' @ exn_text ip e)),
                  (''raw_response'', JStr (exn_text ip e))])"

definition app_generate_schema :: "loads_fn \<Rightarrow> interp \<Rightarrow> exn + string \<Rightarrow> json" where
  "app_generate_schema loads ip invoked =
     generate_schema_with (app_extract_json_from_response loads) ip invoked"

definition app2_generate_schema :: "loads_fn \<Rightarrow> interp \<Rightarrow> exn + string \<Rightarrow> json" where
  "app2_generate_schema loads ip invoked =
     generate_schema_with (app2_extract_json_from_response loads) ip invoked"

section \<open>The diagram builders\<close>

text \<open>
  \<open>items = schema.get('tables', []) if schema.get('schema_type') == 'relational'
  else schema.get('collections', [])\<close>, the same line in both builders.
\<close>

definition schema_items :: "json \<Rightarrow> exn + json" where
  "schema_items schema =
     (case py_get schema ''schema_type'' JNull of
        Inl e \<Rightarrow> Inl e
      | Inr ty \<Rightarrow>
         (if ty = JStr ''relational'' then py_get schema ''tables'' (JArr [])
          else py_get schema ''collections'' (JArr [])))"

text \<open>
  src/app.py, \<open>create_er_diagram\<close>. The graph library is outside the program: the graph
  is the list of the \<open>dot.node\<close> calls and the list of the \<open>dot.edge\<close> calls, each with its
  arguments.
\<close>

record digraph =
  nodes :: "(json \<times> string) list"
  edges :: "(json \<times> json \<times> string) list"

definition er_field :: "interp \<Rightarrow> json \<Rightarrow> exn + string" where
  "er_field ip f =
     (case py_index f ''name'' of
        Inl e \<Rightarrow> Inl e
      | Inr n \<Rightarrow>
         (case py_index f ''type'' of
            Inl e \<Rightarrow> Inl e
          | Inr ty \<Rightarrow> Inr (py_str ip n @ '': '' @ py_str ip ty)))"

definition er_node :: "interp \<Rightarrow> json \<Rightarrow> exn + (json \<times> string)" where
  "er_node ip item =
     (case py_get item ''fields'' (JArr []) of
        Inl e \<Rightarrow> Inl e
      | Inr fs \<Rightarrow>
         (case py_iter fs of
            Inl e \<Rightarrow> Inl e
          | Inr fl \<Rightarrow>
             (case for_each (er_field ip) fl of
                Inl e \<Rightarrow> Inl e
              | Inr ls \<Rightarrow>
                 (case py_index item ''name'' of
                    Inl e \<Rightarrow> Inl e
                  | Inr n \<Rightarrow> Inr (n, py_str ip n @ [CHR 0x0A] @ join_lines ls)))))"

definition er_edge :: "interp \<Rightarrow> json \<Rightarrow> json \<Rightarrow> exn + (json \<times> json \<times> string)" where
  "er_edge ip item rel =
     (case py_index item ''name'' of
        Inl e \<Rightarrow> Inl e
      | Inr n \<Rightarrow>
         (case py_index rel ''related_to'' of
            Inl e \<Rightarrow> Inl e
          | Inr dest \<Rightarrow>
             (case py_index rel ''type'' of
                Inl e \<Rightarrow> Inl e
              | Inr ty \<Rightarrow>
                 (case py_index rel ''field'' of
                    Inl e \<Rightarrow> Inl e
                  | Inr fld \<Rightarrow> Inr (n, dest, py_str ip ty @ [CHR 0x0A] @ py_str ip fld)))))"

definition er_edges :: "interp \<Rightarrow> json \<Rightarrow> exn + (json \<times> json \<times> string) list" where
  "er_edges ip item =
     (case py_get item ''relationships'' (JArr []) of
        Inl e \<Rightarrow> Inl e
      | Inr rs \<Rightarrow>
         (case py_iter rs of
            Inl e \<Rightarrow> Inl e
          | Inr rl \<Rightarrow> for_each (er_edge ip item) rl))"

definition create_er_diagram :: "interp \<Rightarrow> json \<Rightarrow> exn + digraph" where
  "create_er_diagram ip schema =
     (case py_get schema ''error'' JNull of
        Inl e \<Rightarrow> Inl e
      | Inr err \<Rightarrow>
         (if py_truthy ip err then Inr \<lparr>nodes = [], edges = []\<rparr>
          else
            (case schema_items schema of
               Inl e \<Rightarrow> Inl e
             | Inr items \<Rightarrow>
                (case py_iter items of
                   Inl e \<Rightarrow> Inl e
                 | Inr il \<Rightarrow>
                    (case for_each (er_node ip) il of
                       Inl e \<Rightarrow> Inl e
                     | Inr ns \<Rightarrow>
                        (case for_each (er_edges ip) il of
                           Inl e \<Rightarrow> Inl e
                         | Inr es \<Rightarrow> Inr \<lparr>nodes = ns, edges = concat es\<rparr>))))))"

text \<open>
  src/app2.py, \<open>create_mermaid_diagram\<close>. First the relationship type, lines 309 to 320:
  \<open>str(rel.get('type', '1:N')).upper().replace("-", ":")\<close> and the choice of the connector.
\<close>

definition normalize_rel_type :: "string \<Rightarrow> string" where
  "normalize_rel_type s = map (\<lambda>c. if c = CHR ''-'' then CHR '':'' else c) (py_upper s)"

definition connector_of :: "string \<Rightarrow> string" where
  "connector_of rel_type =
     (if rel_type \<in> set [''1:1'', ''ONE_TO_ONE''] then ''||--||''
      else if rel_type \<in> set [''1:N'', ''ONE_TO_MANY''] then ''||--o{''
      else if rel_type \<in> set [''M:N'', ''MANY_TO_MANY''] then ''}o--o{''
      else ''--'')"

definition is_dict :: "json \<Rightarrow> bool" where
  "is_dict v = (case v of JObj kvs \<Rightarrow> True | _ \<Rightarrow> False)"

text \<open>The entity block of one item; an item that is not a dict is passed over.\<close>

definition mermaid_field :: "interp \<Rightarrow> json \<Rightarrow> exn + string list" where
  "mermaid_field ip field =
     (if \<not> is_dict field then Inr []
      else
        (case py_get field ''type'' (JStr ''string'') of
           Inl e \<Rightarrow> Inl e
         | Inr ty \<Rightarrow>
            (case py_get field ''name'' (JStr ''unknown'') of
               Inl e \<Rightarrow> Inl e
             | Inr n \<Rightarrow> Inr [''  '' @ py_upper (py_str ip ty) @ '' '' @ py_str ip n])))"

definition mermaid_entity :: "interp \<Rightarrow> json \<Rightarrow> exn + string list" where
  "mermaid_entity ip item =
     (if \<not> is_dict item then Inr []
      else
        (case py_get item ''name'' (JStr ''unnamed'') of
           Inl e \<Rightarrow> Inl e
         | Inr n \<Rightarrow>
            (case py_get item ''fields'' (JArr []) of
               Inl e \<Rightarrow> Inl e
             | Inr fs \<Rightarrow>
                (case py_iter fs of
                   Inl e \<Rightarrow> Inl e
                 | Inr fl \<Rightarrow>
                    (case for_each (mermaid_field ip) fl of
                       Inl e \<Rightarrow> Inl e
                     | Inr ls \<Rightarrow>
                        Inr [join_lines ([py_str ip n @ '' {''] @ concat ls @ [''}''])])))))"

text \<open>The relationship lines of one item.\<close>

definition mermaid_rel :: "interp \<Rightarrow> json \<Rightarrow> json \<Rightarrow> exn + string list" where
  "mermaid_rel ip item rel =
     (if \<not> is_dict rel then Inr []
      else
        (case py_get item ''name'' (JStr ''unknown'') of
           Inl e \<Rightarrow> Inl e
         | Inr src \<Rightarrow>
            (case py_get rel ''related_to'' (JStr ''unknown'') of
               Inl e \<Rightarrow> Inl e
             | Inr dest \<Rightarrow>
                (case py_get rel ''type'' (JStr ''1:N'') of
                   Inl e \<Rightarrow> Inl e
                 | Inr ty \<Rightarrow>
                    (case py_get rel ''field'' (JStr []) of
                       Inl e \<Rightarrow> Inl e
                     | Inr rel_field \<Rightarrow>
                        Inr [py_str ip src @ '' ''
                             @ connector_of (normalize_rel_type (py_str ip ty)) @ '' ''
                             @ py_str ip dest @ '' : '' @ [CHR 0x22] @ py_str ip rel_field
                             @ [CHR 0x22]])))))"

definition mermaid_rels :: "interp \<Rightarrow> json \<Rightarrow> exn + string list" where
  "mermaid_rels ip item =
     (if \<not> is_dict item then Inr []
      else
        (case py_get item ''relationships'' (JArr []) of
           Inl e \<Rightarrow> Inl e
         | Inr rs \<Rightarrow>
            (case py_iter rs of
               Inl e \<Rightarrow> Inl e
             | Inr rl \<Rightarrow>
                (case for_each (mermaid_rel ip item) rl of
                   Inl e \<Rightarrow> Inl e
                 | Inr ls \<Rightarrow> Inr (concat ls)))))"

text \<open>The body of the \<open>try\<close>.\<close>

definition mermaid_body :: "interp \<Rightarrow> json \<Rightarrow> exn + string" where
  "mermaid_body ip schema =
     (case schema_items schema of
        Inl e \<Rightarrow> Inl e
      | Inr items \<Rightarrow>
         (case py_iter items of
            Inl e \<Rightarrow> Inl e
          | Inr il \<Rightarrow>
             (case for_each (mermaid_entity ip) il of
                Inl e \<Rightarrow> Inl e
              | Inr ents \<Rightarrow>
                 (case for_each (mermaid_rels ip) il of
                    Inl e \<Rightarrow> Inl e
                  | Inr rels \<Rightarrow>
                     Inr (join_lines ([''erDiagram''] @ concat ents @ concat rels))))))"

definition invalid_schema_diagram :: string where
  "invalid_schema_diagram =
     ''erDiagram'' @ [CHR 0x0A] @ ''    error((Error: Invalid Schema))''"

definition failed_diagram :: "string \<Rightarrow> string" where
  "failed_diagram msg =
     ''erDiagram'' @ [CHR 0x0A] @ ''    error((Diagram Generation Failed))'' @ [CHR 0x0A]
     @ ''    note{'' @ [CHR 0x0A] @ ''        '' @ take 100 msg @ [CHR 0x0A] @ ''    }''"

definition create_mermaid_diagram :: "interp \<Rightarrow> json \<Rightarrow> exn + string" where
  "create_mermaid_diagram ip schema =
     (if \<not> py_truthy ip schema then Inr invalid_schema_diagram
      else
        (case py_get schema ''error'' JNull of
           Inl e \<Rightarrow> Inl e
         | Inr err \<Rightarrow>
            (if py_truthy ip err then Inr invalid_schema_diagram
             else
               (case mermaid_body ip schema of
                  Inr d \<Rightarrow> Inr d
                | Inl e \<Rightarrow> Inr (failed_diagram (exn_text ip e))))))"

section \<open>The cascade in the words of the specification\<close>

text \<open>
  The specification describes the extractor as an ordered list of texts, each given to
  the decoder in turn until one parses. \<open>try_all\<close> is that runner; the definitions after
  it list the texts of each strategy. The lemmas below show that the functions of the
  source compute exactly this.
\<close>

fun try_all :: "loads_fn \<Rightarrow> string list \<Rightarrow> exn + json option" where
  "try_all loads [] = Inr None"
| "try_all loads (t # ts) =
     (case attempt loads t of
        Inr None \<Rightarrow> try_all loads ts
      | r \<Rightarrow> r)"

text \<open>
  Strategy 5 in the words of the specification: accumulation begins at the first line
  whose trimmed form starts with \<open>{\<close>; each accumulated line whose trimmed form ends with
  \<open>}\<close> gives one text, everything accumulated up to and including that line.
\<close>

definition spec_line_candidates :: "string list \<Rightarrow> string list" where
  "spec_line_candidates lines =
     (let acc = dropWhile (\<lambda>l. \<not> startswith (strip l) ''{'') lines
      in map (\<lambda>k. join_lines (take (Suc k) acc))
             (filter (\<lambda>k. endswith (strip (acc ! k)) ''}'') [0..<length acc]))"

text \<open>Strategies 3 and 4: the slice and the repaired slice, when both braces exist.\<close>

definition braces_texts :: "string \<Rightarrow> string list" where
  "braces_texts cleaned =
     (let start_idx = find CHR ''{'' cleaned;
          end_idx = rfind CHR ''}'' cleaned
      in if start_idx \<noteq> -1 \<and> end_idx \<noteq> -1
         then [slice cleaned start_idx (end_idx + 1),
               fix_commas (slice cleaned start_idx (end_idx + 1))]
         else [])"

text \<open>All the texts src/app2.py may give to the decoder, in order; then those of src/app.py.\<close>

definition app2_attempts :: "string \<Rightarrow> string list" where
  "app2_attempts response =
     (let cleaned = strip response
      in cleaned # map strip (findall_blocks cleaned) @ braces_texts cleaned)"

definition app_attempts :: "string \<Rightarrow> string list" where
  "app_attempts response =
     app2_attempts response @ spec_line_candidates (split_lines (strip response))"

text \<open>The decoder raised something the extractor does not catch.\<close>

definition raises_other :: "exn + json \<Rightarrow> bool" where
  "raises_other r = (case r of Inl e \<Rightarrow> e \<noteq> JSONDecodeError | Inr v \<Rightarrow> False)"

text \<open>The two failure mappings, as the last line of each extractor builds them.\<close>

definition app_failure :: "string \<Rightarrow> json" where
  "app_failure cleaned =
     JObj [(''error'', JStr error_message),
           (''raw_response'',
            JStr (if length cleaned > 500 then take 500 cleaned @ ''...'' else cleaned))]"

definition app2_failure :: "string \<Rightarrow> json" where
  "app2_failure cleaned =
     JObj [(''error'', JStr error_message),
           (''raw_response'', JStr (take 500 cleaned @ ''...''))]"

text \<open>
  Strategy 4 in the words of the specification, on a text without white space: every
  comma that a closing brace or bracket follows immediately is removed.
\<close>

fun spec_drop_trailing_commas :: "string \<Rightarrow> string" where
  "spec_drop_trailing_commas [] = []"
| "spec_drop_trailing_commas [c] = [c]"
| "spec_drop_trailing_commas (c # d # s) =
     (if c = CHR '','' \<and> (d = CHR ''}'' \<or> d = CHR '']'')
      then spec_drop_trailing_commas (d # s)
      else c # spec_drop_trailing_commas (d # s))"

text \<open>The text with its white space taken out: what "ignoring whitespace" compares.\<close>

definition no_space :: "string \<Rightarrow> string" where
  "no_space s = filter (\<lambda>c. \<not> is_space c) s"

text \<open>
  The accumulated lines once \<open>json_lines\<close> holds \<open>pre\<close>: a helper for the induction over
  the loop of strategy 5.
\<close>

definition cands_from :: "string list \<Rightarrow> string list \<Rightarrow> string list" where
  "cands_from pre ls =
     map (\<lambda>k. join_lines (pre @ take (Suc k) ls))
         (filter (\<lambda>k. endswith (strip (ls ! k)) ''}'') [0..<length ls])"

section \<open>The source computes the cascade\<close>

lemma try_all_append:
  "try_all loads (xs @ ys) = (case try_all loads xs of Inr None \<Rightarrow> try_all loads ys | r \<Rightarrow> r)"
  by (induction xs) (auto split: sum.splits option.splits)

lemma try_blocks_try_all: "try_blocks loads bs = try_all loads (map strip bs)"
  by (induction bs) (auto split: sum.splits option.splits)

lemma try_braces_try_all: "try_braces loads cleaned = try_all loads (braces_texts cleaned)"
  by (auto simp: try_braces_def braces_texts_def Let_def split: sum.splits option.splits)

lemma cands_from_Nil: "cands_from pre [] = []"
  by (simp add: cands_from_def)

lemma cands_from_Cons:
  "cands_from pre (l # ls) =
     (if endswith (strip l) ''}'' then [join_lines (pre @ [l])] else [])
     @ cands_from (pre @ [l]) ls"
proof -
  have u: "[0..<length (l # ls)] = 0 # map Suc [0..<length ls]"
    by (simp add: upt_conv_Cons map_Suc_upt del: upt_Suc)
  show ?thesis
    unfolding cands_from_def u
    by (simp add: filter_map o_def)
qed

lemma line_scan_True:
  "line_scan loads True pre ls = try_all loads (cands_from pre ls)"
proof (induction ls arbitrary: pre)
  case Nil
  show ?case by (simp add: cands_from_Nil)
next
  case (Cons l ls)
  show ?case
    by (simp add: cands_from_Cons Cons.IH split: sum.splits option.splits)
qed

lemma line_scan_False:
  "line_scan loads False [] ls = try_all loads (spec_line_candidates ls)"
proof (induction ls)
  case Nil
  show ?case by (simp add: spec_line_candidates_def)
next
  case (Cons l ls)
  show ?case
  proof (cases "startswith (strip l) ''{''")
    case True
    have "line_scan loads False [] (l # ls) = line_scan loads True [] (l # ls)"
      using True by simp
    also have "\<dots> = try_all loads (cands_from [] (l # ls))"
      by (rule line_scan_True)
    also have "cands_from [] (l # ls) = spec_line_candidates (l # ls)"
      using True by (simp add: spec_line_candidates_def cands_from_def Let_def del: upt_Suc)
    finally show ?thesis .
  next
    case False
    then show ?thesis
      using Cons.IH by (simp add: spec_line_candidates_def)
  qed
qed

lemma app2_extract_cascade:
  "app2_extract_json_from_response loads response =
     (case try_all loads (app2_attempts response) of
        Inl e \<Rightarrow> Inl e
      | Inr (Some v) \<Rightarrow> Inr v
      | Inr None \<Rightarrow> Inr (app2_failure (strip response)))"
  by (simp add: app2_extract_json_from_response_def app2_attempts_def Let_def
        try_all_append try_blocks_try_all try_braces_try_all app2_failure_def
      split: sum.splits option.splits)

lemma app_extract_cascade:
  "app_extract_json_from_response loads response =
     (case try_all loads (app_attempts response) of
        Inl e \<Rightarrow> Inl e
      | Inr (Some v) \<Rightarrow> Inr v
      | Inr None \<Rightarrow> Inr (app_failure (strip response)))"
  by (simp add: app_extract_json_from_response_def app_attempts_def app2_attempts_def Let_def
        try_all_append try_blocks_try_all try_braces_try_all line_scan_False app_failure_def
      split: sum.splits option.splits)

text \<open>What the runner returns, from what the decoder does on each text.\<close>

lemma try_all_all_fail:
  "(\<forall>t\<in>set ts. loads t = Inl JSONDecodeError) \<Longrightarrow> try_all loads ts = Inr None"
  by (induction ts) (auto simp: attempt_def)

lemma try_all_first:
  "(\<forall>x\<in>set pre. loads x = Inl JSONDecodeError) \<Longrightarrow> loads t = Inr v
   \<Longrightarrow> try_all loads (pre @ t # post) = Inr (Some v)"
  by (induction pre) (auto simp: attempt_def)

lemma try_all_first_raise:
  "(\<forall>x\<in>set pre. loads x = Inl JSONDecodeError) \<Longrightarrow> loads t = Inl e \<Longrightarrow> e \<noteq> JSONDecodeError
   \<Longrightarrow> try_all loads (pre @ t # post) = Inl e"
  by (induction pre) (auto simp: attempt_def)

lemma try_all_no_raise:
  "(\<forall>t\<in>set ts. \<not> raises_other (loads t)) \<Longrightarrow> \<exists>r. try_all loads ts = Inr r"
  by (induction ts) (auto simp: attempt_def raises_other_def split: sum.splits)

lemma try_all_Some:
  "try_all loads ts = Inr (Some v) \<Longrightarrow> \<exists>t\<in>set ts. loads t = Inr v"
  by (induction ts) (auto simp: attempt_def split: sum.splits if_splits)

lemma try_all_None:
  "try_all loads ts = Inr None \<Longrightarrow> \<forall>t\<in>set ts. loads t = Inl JSONDecodeError"
  by (induction ts) (auto simp: attempt_def split: sum.splits if_splits)

section \<open>What the string operations compute\<close>

text \<open>\<open>find\<close> and \<open>rfind\<close> give the first and the last occurrence; the slice is inclusive.\<close>

lemma find_nonneg: "find c s = -1 \<or> 0 \<le> find c s"
  by (induction s) (auto simp: Let_def)

lemma find_first:
  "c \<in> set s \<Longrightarrow>
     \<exists>i. find c s = int i \<and> i < length s \<and> s ! i = c \<and> (\<forall>k<i. s ! k \<noteq> c)"
proof (induction s)
  case Nil
  then show ?case by simp
next
  case (Cons x s)
  show ?case
  proof (cases "x = c")
    case True
    then show ?thesis by (intro exI [of _ 0]) simp
  next
    case False
    with Cons obtain i where i: "find c s = int i" "i < length s" "s ! i = c" "\<forall>k<i. s ! k \<noteq> c"
      by auto
    have "\<forall>k<Suc i. (x # s) ! k \<noteq> c"
      using False i(4) by (auto simp: nth_Cons split: nat.splits)
    with False i show ?thesis
      by (intro exI [of _ "Suc i"]) (simp add: Let_def)
  qed
qed

lemma rfind_last:
  assumes "c \<in> set s"
  shows "\<exists>j. rfind c s = int j \<and> j < length s \<and> s ! j = c
             \<and> (\<forall>k. j < k \<and> k < length s \<longrightarrow> s ! k \<noteq> c)"
proof -
  from assms have "c \<in> set (rev s)" by simp
  from find_first [OF this] obtain i where
    i: "find c (rev s) = int i" "i < length s" "rev s ! i = c" "\<forall>k<i. rev s ! k \<noteq> c"
    by auto
  let ?j = "length s - 1 - i"
  have r: "rfind c s = int ?j"
    using i(1,2) by (simp add: rfind_def Let_def of_nat_diff)
  have at: "s ! ?j = c"
    using i(2,3) by (simp add: rev_nth)
  have later: "\<forall>k. ?j < k \<and> k < length s \<longrightarrow> s ! k \<noteq> c"
  proof (intro allI impI)
    fix k assume k: "?j < k \<and> k < length s"
    then have "length s - Suc k < i" by arith
    with i(4) have ne: "rev s ! (length s - Suc k) \<noteq> c" by blast
    have "length s - Suc k < length s"
      using k by arith
    then have "rev s ! (length s - Suc k) = s ! (length s - Suc (length s - Suc k))"
      by (rule rev_nth)
    also have "length s - Suc (length s - Suc k) = k"
      using k by arith
    finally show "s ! k \<noteq> c"
      using ne by simp
  qed
  show ?thesis
    using r at later i(2) by (intro exI [of _ ?j]) simp
qed

lemma find_present: "find c s \<noteq> -1 \<longleftrightarrow> c \<in> set s"
proof (induction s)
  case Nil
  show ?case by simp
next
  case (Cons x s)
  then show ?case
    using find_nonneg [of c s] by (auto simp: Let_def)
qed

lemma rfind_present: "rfind c s \<noteq> -1 \<longleftrightarrow> c \<in> set s"
  using find_present [of c "rev s"] find_nonneg [of c "rev s"] find_first [of c "rev s"]
  by (auto simp: rfind_def Let_def)

lemma slice_inclusive:
  "i \<le> j \<Longrightarrow> j < length s \<Longrightarrow> slice s (int i) (int j + 1) = map (\<lambda>k. s ! k) [i..<Suc j]"
proof -
  assume a: "i \<le> j" "j < length s"
  have n: "nat (int j + 1) = Suc j"
    by arith
  have "take (Suc j - i) (drop i s) = map (\<lambda>k. s ! k) [i..<Suc j]"
    using a by (intro nth_equalityI) (auto simp del: upt_Suc)
  then show ?thesis
    by (simp add: slice_def n del: upt_Suc)
qed

text \<open>
  The substitution removes exactly the commas that a closing brace or bracket follows,
  white space ignored.
\<close>

lemma sub_from_skip: "k \<le> length s \<Longrightarrow> sub_from k s = sub_from 0 (drop k s)"
proof (induction s arbitrary: k)
  case Nil
  then show ?case by simp
next
  case (Cons c s)
  then show ?case by (cases k) simp_all
qed

lemma spec_keep: "c \<noteq> CHR '','' \<Longrightarrow> spec_drop_trailing_commas (c # s) = c # spec_drop_trailing_commas s"
  by (cases s) simp_all

lemma no_space_dropWhile: "no_space (dropWhile is_space s) = no_space s"
  by (induction s) (simp_all add: no_space_def)

lemma dropWhile_suffix:
  "dropWhile P s = d # r \<Longrightarrow> length r < length s \<and> drop (length s - length r) s = r"
proof (induction s)
  case Nil
  then show ?case by simp
next
  case (Cons x s)
  show ?case
  proof (cases "P x")
    case True
    with Cons have "length r < length s \<and> drop (length s - length r) s = r" by simp
    then show ?thesis by (simp add: Suc_diff_le)
  next
    case False
    with Cons.prems show ?thesis by simp
  qed
qed

lemma fix_commas_spec:
  "no_space (fix_commas s) = spec_drop_trailing_commas (no_space s)"
proof -
  have "no_space (sub_from 0 s) = spec_drop_trailing_commas (no_space s)"
  proof (induction "length s" arbitrary: s rule: less_induct)
    case less
    show ?case
    proof (cases s)
      case Nil
      then show ?thesis by (simp add: no_space_def)
    next
      case (Cons c t)
      have IHt: "no_space (sub_from 0 t) = spec_drop_trailing_commas (no_space t)"
        using less Cons by simp
      show ?thesis
      proof (cases "c = CHR '',''")
        case False
        show ?thesis
        proof (cases "is_space c")
          case True
          with False Cons IHt show ?thesis by (simp add: no_space_def)
        next
          case ns: False
          have "no_space (sub_from 0 s) = c # no_space (sub_from 0 t)"
            using False ns Cons by (simp add: no_space_def)
          also have "\<dots> = c # spec_drop_trailing_commas (no_space t)"
            by (simp add: IHt)
          also have "\<dots> = spec_drop_trailing_commas (c # no_space t)"
            using False by (simp add: spec_keep)
          also have "c # no_space t = no_space s"
            using ns Cons by (simp add: no_space_def)
          finally show ?thesis .
        qed
      next
        case comma: True
        have cs: "\<not> is_space c"
          using comma by (simp add: is_space_def)
        have nss: "no_space s = c # no_space t"
          using cs Cons by (simp add: no_space_def)
        show ?thesis
        proof (cases "dropWhile is_space t")
          case Nil
          then have "no_space t = []"
            using no_space_dropWhile [of t] by (simp add: no_space_def)
          moreover have "sub_from 0 s = c # sub_from 0 t"
            using comma \<open>s = c # t\<close> by (simp add: Nil)
          ultimately show ?thesis
            using IHt cs nss by (simp add: no_space_def)
        next
          case (Cons d r)
          have dn: "\<not> is_space d"
            using Cons hd_dropWhile [of is_space t] by (metis list.sel(1) list.simps(3))
          have nt: "no_space t = d # no_space r"
            using no_space_dropWhile [of t] Cons dn by (simp add: no_space_def)
          show ?thesis
          proof (cases "d = CHR ''}'' \<or> d = CHR '']''")
            case True
            from dropWhile_suffix [OF Cons]
            have lr: "length r < length t" and dr: "drop (length t - length r) t = r"
              by simp_all
            have "sub_from 0 s = d # sub_from (length t - length r) t"
              using comma \<open>s = c # t\<close> True by (simp add: Cons)
            also have "sub_from (length t - length r) t = sub_from 0 r"
              using sub_from_skip [of "length t - length r" t] dr by simp
            finally have "no_space (sub_from 0 s) = d # no_space (sub_from 0 r)"
              using dn by (simp add: no_space_def)
            also have "no_space (sub_from 0 r) = spec_drop_trailing_commas (no_space r)"
              using less lr \<open>s = c # t\<close> by simp
            also have "d # spec_drop_trailing_commas (no_space r)
                       = spec_drop_trailing_commas (d # no_space r)"
              using True by (auto simp: spec_keep)
            also have "\<dots> = spec_drop_trailing_commas (c # d # no_space r)"
              using comma True by simp
            finally show ?thesis
              by (simp add: nss nt)
          next
            case False
            have "sub_from 0 s = c # sub_from 0 t"
              using comma \<open>s = c # t\<close> False by (simp add: Cons)
            then have "no_space (sub_from 0 s) = c # spec_drop_trailing_commas (no_space t)"
              using cs IHt by (simp add: no_space_def)
            also have "\<dots> = spec_drop_trailing_commas (c # d # no_space r)"
              using False by (simp add: nt)
            finally show ?thesis
              by (simp add: nss nt)
          qed
        qed
      qed
    qed
  qed
  then show ?thesis
    by (simp add: fix_commas_def)
qed

lemma match_fence_head: "CHR 0x60 \<noteq> c \<Longrightarrow> match_fence (c # s) = None"
  by (auto simp: match_fence_def startswith_def)

lemma findall_from_prose:
  "CHR 0x60 \<notin> set pre \<Longrightarrow> findall_from 0 (pre @ t) = findall_from 0 t"
  by (induction pre) (simp_all add: match_fence_head)

lemma findall_from_skip: "findall_from (length xs) (xs @ t) = findall_from 0 t"
  by (induction xs) simp_all

lemma until_close_content:
  "CHR 0x60 \<notin> set g \<Longrightarrow> until_close (g @ fence_close @ rest) = Some g"
proof (induction g)
  case Nil
  show ?case by (simp add: fence_close_def startswith_def)
next
  case (Cons c g)
  have "\<not> startswith (c # g @ fence_close @ rest) fence_close"
    using Cons.prems by (cases g) (auto simp: fence_close_def startswith_def)
  with Cons show ?case by simp
qed

text \<open>
  A fenced region whose content holds no backtick, behind prose that holds none: the
  pattern finds the content, tagged or not, and goes on behind the closing fence.
\<close>

lemma findall_blocks_fence:
  assumes "CHR 0x60 \<notin> set pre" and "CHR 0x60 \<notin> set g"
  shows "findall_blocks (pre @ ''```json'' @ [CHR 0x0A] @ g @ [CHR 0x0A] @ ''```'' @ rest)
           = g # findall_blocks rest"
    and "findall_blocks (pre @ ''```'' @ [CHR 0x0A] @ g @ [CHR 0x0A] @ ''```'' @ rest)
           = g # findall_blocks rest"
proof -
  have c: "[CHR 0x0A] @ ''```'' @ rest = fence_close @ rest"
    by (simp add: fence_close_def)
  have u: "until_close (g @ fence_close @ rest) = Some g"
    by (rule until_close_content [OF assms(2)])
  have step: "\<And>body n. match_fence (CHR 0x60 # body @ rest) = Some (g, n)
                \<Longrightarrow> n - 1 = length body
                \<Longrightarrow> findall_from 0 (CHR 0x60 # body @ rest) = g # findall_from 0 rest"
  proof -
    fix body n
    assume m: "match_fence (CHR 0x60 # body @ rest) = Some (g, n)" and l: "n - 1 = length body"
    have "findall_from 0 (CHR 0x60 # body @ rest) = g # findall_from (n - 1) (body @ rest)"
      by (simp only: findall_from.simps m option.case prod.case)
    also have "findall_from (n - 1) (body @ rest) = findall_from 0 rest"
      unfolding l by (rule findall_from_skip)
    finally show "findall_from 0 (CHR 0x60 # body @ rest) = g # findall_from 0 rest" .
  qed
  let ?tag = "''``json'' @ [CHR 0x0A] @ g @ fence_close"
  have m1: "match_fence (CHR 0x60 # ?tag @ rest) = Some (g, 8 + length g + 4)"
    by (simp add: match_fence_def startswith_def u)
  have "findall_from 0 (CHR 0x60 # ?tag @ rest) = g # findall_from 0 rest"
    by (rule step [OF m1]) (simp add: fence_close_def)
  then have t: "findall_from 0 (''```json'' @ [CHR 0x0A] @ g @ fence_close @ rest)
                   = g # findall_from 0 rest"
    by simp
  let ?plain = "''``'' @ [CHR 0x0A] @ g @ fence_close"
  have m2: "match_fence (CHR 0x60 # ?plain @ rest) = Some (g, 4 + length g + 4)"
    by (simp add: match_fence_def startswith_def u)
  have "findall_from 0 (CHR 0x60 # ?plain @ rest) = g # findall_from 0 rest"
    by (rule step [OF m2]) (simp add: fence_close_def)
  then have p: "findall_from 0 (''```'' @ [CHR 0x0A] @ g @ fence_close @ rest)
                   = g # findall_from 0 rest"
    by simp
  show "findall_blocks (pre @ ''```json'' @ [CHR 0x0A] @ g @ [CHR 0x0A] @ ''```'' @ rest)
           = g # findall_blocks rest"
    unfolding findall_blocks_def c findall_from_prose [OF assms(1)] by (rule t)
  show "findall_blocks (pre @ ''```'' @ [CHR 0x0A] @ g @ [CHR 0x0A] @ ''```'' @ rest)
           = g # findall_blocks rest"
    unfolding findall_blocks_def c findall_from_prose [OF assms(1)] by (rule p)
qed

section \<open>Exceptions of the decoder\<close>

lemma strip_no_space: "\<forall>c\<in>set s. \<not> is_space c \<Longrightarrow> strip s = s"
proof -
  assume a: "\<forall>c\<in>set s. \<not> is_space c"
  then have "dropWhile is_space s = s"
    by (cases s) auto
  moreover from a have "dropWhile is_space (rev s) = rev s"
    by (cases "rev s") (auto simp: rev_swap [symmetric] dest: arg_cong [where f = set])
  ultimately show ?thesis
    by (simp add: strip_def)
qed

lemma lex_from_brackets: "lex_from 0 (replicate n CHR ''['') = replicate n TLBracket"
  by (induction n) (simp_all add: startswith_def)

lemma run_too_deep:
  "length st \<le> limit \<Longrightarrow> limit < length st + n \<Longrightarrow> p = PValue \<or> p = PArrStart
   \<Longrightarrow> run limit p st (replicate n TLBracket) = Inl RecursionError"
proof (induction n arbitrary: st p)
  case 0
  then show ?case by simp
next
  case (Suc n)
  show ?case
  proof (cases "length st < limit")
    case True
    have "run limit PArrStart (FArr [] # st) (replicate n TLBracket) = Inl RecursionError"
      using Suc.prems True by (intro Suc.IH) auto
    then show ?thesis
      using Suc.prems(3) True by auto
  next
    case False
    then show ?thesis
      using Suc.prems(3) by auto
  qed
qed

lemma json_loads_too_deep:
  "limit < n \<Longrightarrow> json_loads limit (replicate n CHR ''['') = Inl RecursionError"
  by (simp add: json_loads_def lex_from_brackets run_too_deep)

lemma extract_too_deep:
  assumes "limit < n"
  shows "app_extract_json_from_response (json_loads limit) (replicate n CHR ''['')
           = Inl RecursionError
         \<and> app2_extract_json_from_response (json_loads limit) (replicate n CHR ''['')
           = Inl RecursionError"
proof -
  have s: "strip (replicate n CHR ''['') = replicate n CHR ''[''"
    by (rule strip_no_space) (simp add: is_space_def)
  show ?thesis
    by (simp add: app_extract_json_from_response_def app2_extract_json_from_response_def
          s attempt_def json_loads_too_deep [OF assms])
qed

text \<open>
  C1 as stated fails: the extractor catches \<open>JSONDecodeError\<close> only, and on a text that
  nests arrays deeper than the interpreter's recursion limit the decoder raises
  \<open>RecursionError\<close>, which leaves the extractor.
\<close>

theorem extract_raises_on_deep_nesting:
  "app_extract_json_from_response (json_loads 1000) (replicate 100000 CHR ''['')
     = Inl RecursionError
   \<and> app2_extract_json_from_response (json_loads 1000) (replicate 100000 CHR ''['')
     = Inl RecursionError"
  by (rule extract_too_deep) simp

text \<open>
  C1, amended. Both extractors return a result, a parsed value or the failure mapping,
  whenever the decoder raises nothing but \<open>JSONDecodeError\<close> on the texts it is given.
\<close>

theorem extract_returns_unless_decoder_raises:
  "((\<forall>t\<in>set (app_attempts response). \<not> raises_other (loads t))
      \<longrightarrow> (\<exists>v. app_extract_json_from_response loads response = Inr v))
   \<and> ((\<forall>t\<in>set (app2_attempts response). \<not> raises_other (loads t))
      \<longrightarrow> (\<exists>v. app2_extract_json_from_response loads response = Inr v))"
proof (intro conjI impI)
  assume "\<forall>t\<in>set (app_attempts response). \<not> raises_other (loads t)"
  then obtain r where "try_all loads (app_attempts response) = Inr r"
    using try_all_no_raise by blast
  then show "\<exists>v. app_extract_json_from_response loads response = Inr v"
    by (cases r) (simp_all add: app_extract_cascade)
next
  assume "\<forall>t\<in>set (app2_attempts response). \<not> raises_other (loads t)"
  then obtain r where "try_all loads (app2_attempts response) = Inr r"
    using try_all_no_raise by blast
  then show "\<exists>v. app2_extract_json_from_response loads response = Inr v"
    by (cases r) (simp_all add: app2_extract_cascade)
qed

text \<open>The empty text, a text of white space only, and a text with no JSON in it.\<close>

theorem extract_returns_unless_decoder_raises_witness:
  \<open>(list_all (\<lambda>t. \<not> raises_other (json_loads 1000 t)) (app_attempts '''')
     \<and> (\<exists>v. app_extract_json_from_response (json_loads 1000) '''' = Inr v))
   \<and> (list_all (\<lambda>t. \<not> raises_other (json_loads 1000 t)) (app2_attempts '' \<newline>  '')
     \<and> (\<exists>v. app2_extract_json_from_response (json_loads 1000) '' \<newline>  '' = Inr v))
   \<and> (list_all (\<lambda>t. \<not> raises_other (json_loads 1000 t))
         (app_attempts ''I cannot help with that.'')
     \<and> (\<exists>v. app_extract_json_from_response (json_loads 1000) ''I cannot help with that.''
              = Inr v))\<close>
proof -
  have h1: "\<forall>t\<in>set (app_attempts ''''). \<not> raises_other (json_loads 1000 t)"
    by code_simp
  have h2: \<open>\<forall>t\<in>set (app2_attempts '' \<newline>  ''). \<not> raises_other (json_loads 1000 t)\<close>
    by code_simp
  have h3: "\<forall>t\<in>set (app_attempts ''I cannot help with that.'').
              \<not> raises_other (json_loads 1000 t)"
    by code_simp
  show ?thesis
    unfolding list_all_iff
    using h1 h2 h3
      extract_returns_unless_decoder_raises [of \<open>''''\<close> "json_loads 1000"]
      extract_returns_unless_decoder_raises [of \<open>'' \<newline>  ''\<close> "json_loads 1000"]
      extract_returns_unless_decoder_raises [of \<open>''I cannot help with that.''\<close> "json_loads 1000"]
    by blast
qed

section \<open>The shape of the result\<close>

text \<open>
  C2 as stated fails in both directions: the decoder returns whatever JSON value the
  text holds, so the result of a successful strategy need not be a mapping, and a
  parsed mapping may itself have the key \<open>error\<close>.
\<close>

theorem result_need_not_be_a_mapping:
  \<open>app_extract_json_from_response (json_loads 1000) ''[1, 2]'' = Inr (JArr [JInt 1, JInt 2])
   \<and> app2_extract_json_from_response (json_loads 1000) ''[1, 2]'' = Inr (JArr [JInt 1, JInt 2])
   \<and> app_extract_json_from_response (json_loads 1000) ''{"error": null}''
       = Inr (JObj [(''error'', JNull)])
   \<and> app2_extract_json_from_response (json_loads 1000) ''{"error": null}''
       = Inr (JObj [(''error'', JNull)])\<close>
  by code_simp

text \<open>
  C2, amended. A result is either the value the decoder returned for one of the texts
  tried, whatever that value is, or, when the decoder refused every text, the failure
  mapping: exactly the keys \<open>error\<close>, with the fixed message, and \<open>raw_response\<close>, with
  a string.
\<close>

theorem result_is_parse_or_failure_mapping:
  "(app_extract_json_from_response loads response = Inr r \<longrightarrow>
      (\<exists>t\<in>set (app_attempts response). loads t = Inr r)
      \<or> ((\<forall>t\<in>set (app_attempts response). loads t = Inl JSONDecodeError)
         \<and> (\<exists>w. r = JObj [(''error'', JStr error_message), (''raw_response'', JStr w)])))
   \<and> (app2_extract_json_from_response loads response = Inr r \<longrightarrow>
      (\<exists>t\<in>set (app2_attempts response). loads t = Inr r)
      \<or> ((\<forall>t\<in>set (app2_attempts response). loads t = Inl JSONDecodeError)
         \<and> (\<exists>w. r = JObj [(''error'', JStr error_message), (''raw_response'', JStr w)])))"
proof (intro conjI impI)
  assume a: "app_extract_json_from_response loads response = Inr r"
  show "(\<exists>t\<in>set (app_attempts response). loads t = Inr r)
        \<or> ((\<forall>t\<in>set (app_attempts response). loads t = Inl JSONDecodeError)
           \<and> (\<exists>w. r = JObj [(''error'', JStr error_message), (''raw_response'', JStr w)]))"
  proof (cases "try_all loads (app_attempts response)")
    case (Inl e)
    with a show ?thesis by (simp add: app_extract_cascade)
  next
    case (Inr res)
    show ?thesis
    proof (cases res)
      case None
      with Inr a have "r = app_failure (strip response)"
        by (simp add: app_extract_cascade)
      moreover from Inr None
      have "\<forall>t\<in>set (app_attempts response). loads t = Inl JSONDecodeError"
        using try_all_None by blast
      ultimately show ?thesis
        by (simp add: app_failure_def)
    next
      case (Some v)
      with Inr a have "r = v" by (simp add: app_extract_cascade)
      with Inr Some show ?thesis
        using try_all_Some by blast
    qed
  qed
next
  assume a: "app2_extract_json_from_response loads response = Inr r"
  show "(\<exists>t\<in>set (app2_attempts response). loads t = Inr r)
        \<or> ((\<forall>t\<in>set (app2_attempts response). loads t = Inl JSONDecodeError)
           \<and> (\<exists>w. r = JObj [(''error'', JStr error_message), (''raw_response'', JStr w)]))"
  proof (cases "try_all loads (app2_attempts response)")
    case (Inl e)
    with a show ?thesis by (simp add: app2_extract_cascade)
  next
    case (Inr res)
    show ?thesis
    proof (cases res)
      case None
      with Inr a have "r = app2_failure (strip response)"
        by (simp add: app2_extract_cascade)
      moreover from Inr None
      have "\<forall>t\<in>set (app2_attempts response). loads t = Inl JSONDecodeError"
        using try_all_None by blast
      ultimately show ?thesis
        by (simp add: app2_failure_def)
    next
      case (Some v)
      with Inr a have "r = v" by (simp add: app2_extract_cascade)
      with Inr Some show ?thesis
        using try_all_Some by blast
    qed
  qed
qed

text \<open>A text with no JSON in it gives the failure mapping; a text that parses gives its parse.\<close>

theorem result_is_parse_or_failure_mapping_witness:
  \<open>(app_extract_json_from_response (json_loads 1000) ''I cannot help with that.''
      = Inr (JObj [(''error'', JStr ''Failed to extract valid JSON from response''),
                   (''raw_response'', JStr ''I cannot help with that.'')])
    \<and> ((\<exists>t\<in>set (app_attempts ''I cannot help with that.'').
           json_loads 1000 t
           = Inr (JObj [(''error'', JStr ''Failed to extract valid JSON from response''),
                        (''raw_response'', JStr ''I cannot help with that.'')]))
       \<or> ((\<forall>t\<in>set (app_attempts ''I cannot help with that.'').
              json_loads 1000 t = Inl JSONDecodeError)
          \<and> (\<exists>w. JObj [(''error'', JStr ''Failed to extract valid JSON from response''),
                        (''raw_response'', JStr ''I cannot help with that.'')]
                 = JObj [(''error'', JStr error_message), (''raw_response'', JStr w)]))))
   \<and> (app2_extract_json_from_response (json_loads 1000) ''  [1, 2] '' = Inr (JArr [JInt 1, JInt 2])
    \<and> ((\<exists>t\<in>set (app2_attempts ''  [1, 2] ''). json_loads 1000 t = Inr (JArr [JInt 1, JInt 2]))
       \<or> ((\<forall>t\<in>set (app2_attempts ''  [1, 2] ''). json_loads 1000 t = Inl JSONDecodeError)
          \<and> (\<exists>w. JArr [JInt 1, JInt 2]
                 = JObj [(''error'', JStr error_message), (''raw_response'', JStr w)]))))\<close>
proof -
  let ?f = "JObj [(''error'', JStr ''Failed to extract valid JSON from response''),
                  (''raw_response'', JStr ''I cannot help with that.'')]"
  have h1: "app_extract_json_from_response (json_loads 1000) ''I cannot help with that.''
            = Inr ?f"
    by code_simp
  have h2: "app2_extract_json_from_response (json_loads 1000) ''  [1, 2] ''
            = Inr (JArr [JInt 1, JInt 2])"
    by code_simp
  show ?thesis
    using h1 h2
      result_is_parse_or_failure_mapping
        [of "json_loads 1000" \<open>''I cannot help with that.''\<close> ?f]
      result_is_parse_or_failure_mapping
        [of "json_loads 1000" \<open>''  [1, 2] ''\<close> "JArr [JInt 1, JInt 2]"]
    by blast
qed

section \<open>Direct parse\<close>

text \<open>
  C3. When the trimmed text is valid JSON, that is when the decoder returns a value \<open>v\<close>
  for it, both extractors return exactly \<open>v\<close>: the first strategy decides and no later
  strategy is consulted.
\<close>

theorem direct_parse_identity:
  "loads (strip response) = Inr v \<Longrightarrow>
     app_extract_json_from_response loads response = Inr v
     \<and> app2_extract_json_from_response loads response = Inr v"
  by (simp add: app_extract_json_from_response_def app2_extract_json_from_response_def
        attempt_def)

text \<open>The example of the specification, with the model of the decoder.\<close>

theorem direct_parse_identity_witness:
  \<open>json_loads 1000 (strip ''{"schema_type":"relational","tables":[]}'')
     = Inr (JObj [(''schema_type'', JStr ''relational''), (''tables'', JArr [])])
   \<and> app_extract_json_from_response (json_loads 1000)
        ''{"schema_type":"relational","tables":[]}''
     = Inr (JObj [(''schema_type'', JStr ''relational''), (''tables'', JArr [])])
   \<and> app2_extract_json_from_response (json_loads 1000)
        ''{"schema_type":"relational","tables":[]}''
     = Inr (JObj [(''schema_type'', JStr ''relational''), (''tables'', JArr [])])\<close>
proof -
  have h: \<open>json_loads 1000 (strip ''{"schema_type":"relational","tables":[]}'')
           = Inr (JObj [(''schema_type'', JStr ''relational''), (''tables'', JArr [])])\<close>
    by code_simp
  show ?thesis
    using h direct_parse_identity
      [of \<open>json_loads 1000\<close> \<open>''{"schema_type":"relational","tables":[]}''\<close>, OF h]
    by blast
qed

lemma app2_attempts_blocks:
  "app2_attempts response =
     strip response # map strip (findall_blocks (strip response)) @ braces_texts (strip response)"
  by (simp add: app2_attempts_def Let_def)

section \<open>The raw response of a failure\<close>

lemma find_absent: "c \<notin> set s \<Longrightarrow> find c s = -1"
  by (induction s) (auto simp: Let_def)

lemma match_fence_needs_backtick: "CHR 0x60 \<notin> set s \<Longrightarrow> match_fence s = None"
  by (cases s) (auto simp: match_fence_def startswith_def)

lemma findall_from_no_backtick: "CHR 0x60 \<notin> set s \<Longrightarrow> findall_from 0 s = []"
proof (induction s)
  case Nil
  show ?case by simp
next
  case (Cons c s)
  then have "match_fence (c # s) = None"
    by (intro match_fence_needs_backtick)
  with Cons show ?case by simp
qed

lemma set_strip: "set (strip s) \<subseteq> set s"
proof -
  have "set (dropWhile is_space (rev (dropWhile is_space s))) \<subseteq> set (rev (dropWhile is_space s))"
    by (rule set_dropWhileD [THEN subsetI])
  also have "\<dots> \<subseteq> set s"
    using set_dropWhileD [of _ is_space s] by auto
  finally show ?thesis
    by (simp add: strip_def)
qed

lemma set_split_lines: "\<forall>l\<in>set (split_lines s). set l \<subseteq> set s"
proof (induction s)
  case Nil
  show ?case by simp
next
  case (Cons c s)
  then show ?case
    by (cases "split_lines s") (auto split: if_splits)
qed

lemma startswith_brace: "startswith t ''{'' \<Longrightarrow> CHR ''{'' \<in> set t"
  by (cases t) (auto simp: startswith_def)

lemma no_brace_no_candidates:
  assumes "CHR ''{'' \<notin> set s"
  shows "spec_line_candidates (split_lines s) = []"
proof -
  have "\<forall>l\<in>set (split_lines s). \<not> startswith (strip l) ''{''"
    using assms set_split_lines set_strip startswith_brace by blast
  then have "dropWhile (\<lambda>l. \<not> startswith (strip l) ''{'') (split_lines s) = []"
    by simp
  then show ?thesis
    by (simp add: spec_line_candidates_def)
qed

lemma attempts_plain_text:
  assumes "CHR ''{'' \<notin> set s" and "CHR 0x60 \<notin> set s"
  shows "app_attempts s = [strip s]" and "app2_attempts s = [strip s]"
proof -
  have b: "CHR ''{'' \<notin> set (strip s)" and q: "CHR 0x60 \<notin> set (strip s)"
    using assms set_strip by blast+
  show 2: "app2_attempts s = [strip s]"
    by (simp add: app2_attempts_def Let_def findall_blocks_def findall_from_no_backtick [OF q]
          braces_texts_def find_absent [OF b])
  show "app_attempts s = [strip s]"
    by (simp add: app_attempts_def 2 no_brace_no_candidates [OF b])
qed

lemma json_loads_letters:
  "0 < n \<Longrightarrow> json_loads limit (replicate n CHR ''x'') = Inl JSONDecodeError"
  by (cases n) (simp_all add: json_loads_def startswith_def scan_number_def is_digit_def Let_def)

text \<open>What \<open>generate_schema\<close> makes of a failure of the extractor it calls.\<close>

lemma generate_schema_failure:
  assumes "extract response = Inr (JObj [(''error'', m), (''raw_response'', w)])"
  shows "generate_schema_with extract ip (Inr response)
         = JObj [(''error'', m), (''raw_response'', JStr (take 1000 response))]"
  using assms
  by (simp add: generate_schema_with_def py_in_def py_setitem_def dict_set_def)

lemma app_extract_all_fail:
  "(\<forall>t\<in>set (app_attempts response). loads t = Inl JSONDecodeError)
   \<Longrightarrow> app_extract_json_from_response loads response = Inr (app_failure (strip response))"
  by (simp add: app_extract_cascade try_all_all_fail)

lemma app2_extract_all_fail:
  "(\<forall>t\<in>set (app2_attempts response). loads t = Inl JSONDecodeError)
   \<Longrightarrow> app2_extract_json_from_response loads response = Inr (app2_failure (strip response))"
  by (simp add: app2_extract_cascade try_all_all_fail)

text \<open>
  C4 as stated fails. The extractor caps the trimmed text, not the raw text, so a short
  raw text with white space around it does not come back unchanged; and on the
  generation-error path \<open>generate_schema\<close> overwrites \<open>raw_response\<close> with the first 1000
  characters and no marker, so 1001 characters come back as 1000, not 1003.
\<close>

theorem raw_response_not_cap_plus_marker:
  \<open>app_extract_json_from_response (json_loads 1000) ''  I cannot help with that. ''
     = Inr (JObj [(''error'', JStr ''Failed to extract valid JSON from response''),
                  (''raw_response'', JStr ''I cannot help with that.'')])
   \<and> app_generate_schema (json_loads 1000) plain_interp (Inr (replicate 1001 CHR ''x''))
     = JObj [(''error'', JStr ''Failed to extract valid JSON from response''),
             (''raw_response'', JStr (replicate 1000 CHR ''x''))]
   \<and> app2_generate_schema (json_loads 1000) plain_interp (Inr (replicate 1001 CHR ''x''))
     = JObj [(''error'', JStr ''Failed to extract valid JSON from response''),
             (''raw_response'', JStr (replicate 1000 CHR ''x''))]\<close>
proof -
  let ?x = "replicate 1001 CHR ''x''"
  have a: "app_attempts ?x = [strip ?x]" "app2_attempts ?x = [strip ?x]"
    by (rule attempts_plain_text; simp)+
  have s: "strip ?x = ?x"
    by (rule strip_no_space) (simp add: is_space_def)
  have f: "json_loads 1000 ?x = Inl JSONDecodeError"
    by (rule json_loads_letters) simp
  have e1: "app_extract_json_from_response (json_loads 1000) ?x = Inr (app_failure (strip ?x))"
    by (rule app_extract_all_fail) (simp add: a s f)
  have e2: "app2_extract_json_from_response (json_loads 1000) ?x = Inr (app2_failure (strip ?x))"
    by (rule app2_extract_all_fail) (simp add: a s f)
  have g1: "app_generate_schema (json_loads 1000) plain_interp (Inr ?x)
            = JObj [(''error'', JStr error_message), (''raw_response'', JStr (take 1000 ?x))]"
    unfolding app_generate_schema_def
    by (rule generate_schema_failure) (simp only: e1 app_failure_def)
  have g2: "app2_generate_schema (json_loads 1000) plain_interp (Inr ?x)
            = JObj [(''error'', JStr error_message), (''raw_response'', JStr (take 1000 ?x))]"
    unfolding app2_generate_schema_def
    by (rule generate_schema_failure) (simp only: e2 app2_failure_def)
  have t: "take 1000 ?x = replicate 1000 CHR ''x''"
    by simp
  have small: \<open>app_extract_json_from_response (json_loads 1000) ''  I cannot help with that. ''
     = Inr (JObj [(''error'', JStr ''Failed to extract valid JSON from response''),
                  (''raw_response'', JStr ''I cannot help with that.'')])\<close>
    by code_simp
  show ?thesis
    using small g1 g2 unfolding t error_message_def by blast
qed

text \<open>
  C4, amended. When the decoder refuses every text: the extractor of src/app.py returns
  the trimmed text, cut to its first 500 characters with the marker \<open>...\<close> appended when
  it is longer than 500 (503 characters then), and unchanged otherwise; and
  \<open>generate_schema\<close>, in both files, replaces it by the first 1000 characters of the
  untrimmed response, with no marker.
\<close>

theorem failure_raw_response:
  "((\<forall>t\<in>set (app_attempts response). loads t = Inl JSONDecodeError) \<longrightarrow>
      app_extract_json_from_response loads response
        = Inr (JObj [(''error'', JStr error_message),
                     (''raw_response'',
                      JStr (if 500 < length (strip response)
                            then take 500 (strip response) @ ''...''
                            else strip response))])
      \<and> (500 < length (strip response)
           \<longrightarrow> length (take 500 (strip response) @ ''...'') = 503)
      \<and> app_generate_schema loads ip (Inr response)
        = JObj [(''error'', JStr error_message),
                (''raw_response'', JStr (take 1000 response))])
   \<and> ((\<forall>t\<in>set (app2_attempts response). loads t = Inl JSONDecodeError) \<longrightarrow>
      app2_generate_schema loads ip (Inr response)
        = JObj [(''error'', JStr error_message),
                (''raw_response'', JStr (take 1000 response))])"
proof (intro conjI impI)
  assume a: "\<forall>t\<in>set (app_attempts response). loads t = Inl JSONDecodeError"
  show e: "app_extract_json_from_response loads response
        = Inr (JObj [(''error'', JStr error_message),
                     (''raw_response'',
                      JStr (if 500 < length (strip response)
                            then take 500 (strip response) @ ''...''
                            else strip response))])"
    using app_extract_all_fail [OF a] by (simp add: app_failure_def)
  show "app_generate_schema loads ip (Inr response)
        = JObj [(''error'', JStr error_message),
                (''raw_response'', JStr (take 1000 response))]"
    unfolding app_generate_schema_def
    by (rule generate_schema_failure) (rule e)
next
  assume "500 < length (strip response)"
  then show "length (take 500 (strip response) @ ''...'') = 503"
    by simp
next
  assume a: "\<forall>t\<in>set (app2_attempts response). loads t = Inl JSONDecodeError"
  show "app2_generate_schema loads ip (Inr response)
        = JObj [(''error'', JStr error_message),
                (''raw_response'', JStr (take 1000 response))]"
    unfolding app2_generate_schema_def
    by (rule generate_schema_failure)
       (simp only: app2_extract_all_fail [OF a] app2_failure_def)
qed

text \<open>A short text and a text of 600 characters.\<close>

theorem failure_raw_response_witness:
  \<open>(list_all (\<lambda>t. json_loads 1000 t = Inl JSONDecodeError)
       (app_attempts ''  I cannot help with that. '')
    \<and> app_extract_json_from_response (json_loads 1000) ''  I cannot help with that. ''
        = Inr (JObj [(''error'', JStr error_message),
                     (''raw_response'', JStr ''I cannot help with that.'')])
    \<and> app_generate_schema (json_loads 1000) plain_interp (Inr ''  I cannot help with that. '')
        = JObj [(''error'', JStr error_message),
                (''raw_response'', JStr ''  I cannot help with that. '')])
   \<and> (list_all (\<lambda>t. json_loads 1000 t = Inl JSONDecodeError)
       (app2_attempts ''  I cannot help with that. '')
    \<and> app2_generate_schema (json_loads 1000) plain_interp (Inr ''  I cannot help with that. '')
        = JObj [(''error'', JStr error_message),
                (''raw_response'', JStr ''  I cannot help with that. '')])
   \<and> (list_all (\<lambda>t. json_loads 1000 t = Inl JSONDecodeError)
       (app_attempts (replicate 600 CHR ''x''))
    \<and> 500 < length (strip (replicate 600 CHR ''x''))
    \<and> app_extract_json_from_response (json_loads 1000) (replicate 600 CHR ''x'')
        = Inr (JObj [(''error'', JStr error_message),
                     (''raw_response'', JStr (replicate 500 CHR ''x'' @ ''...''))])
    \<and> length (replicate 500 CHR ''x'' @ ''...'') = 503)\<close>
proof -
  let ?r = \<open>''  I cannot help with that. ''\<close>
  let ?x = "replicate 600 CHR ''x''"
  have h1: "\<forall>t\<in>set (app_attempts ?r). json_loads 1000 t = Inl JSONDecodeError"
    by code_simp
  have h2: "\<forall>t\<in>set (app2_attempts ?r). json_loads 1000 t = Inl JSONDecodeError"
    by code_simp
  have s1: \<open>strip ?r = ''I cannot help with that.''\<close>
    by code_simp
  have s: "strip ?x = ?x"
    by (rule strip_no_space) (simp add: is_space_def)
  have a: "app_attempts ?x = [strip ?x]"
    by (rule attempts_plain_text; simp)
  have f: "json_loads 1000 ?x = Inl JSONDecodeError"
    by (rule json_loads_letters) simp
  have h3: "\<forall>t\<in>set (app_attempts ?x). json_loads 1000 t = Inl JSONDecodeError"
    by (simp add: a s f)
  have h4: "500 < length (strip ?x)"
    by (simp add: s)
  have t: "take 500 ?x = replicate 500 CHR ''x''"
    by simp
  show ?thesis
    using h1 h2 h3 h4
      failure_raw_response [of ?r "json_loads 1000" plain_interp]
      failure_raw_response [of ?x "json_loads 1000" plain_interp]
    unfolding s s1 t list_all_iff
    by simp
qed

section \<open>Fenced blocks\<close>

text \<open>
  C5. When the trimmed text does not parse, the fenced regions that the pattern finds are
  tried in the order of the text, and the result is the parse of the first region whose
  trimmed content parses. A region is what \<open>findall_blocks\<close> returns: three backticks,
  optionally the tag \<open>json\<close>, a newline, the content, a newline and three backticks
  (lemma \<open>findall_blocks_fence\<close>).
\<close>

theorem fenced_block_first_parse:
  assumes direct: "loads (strip response) = Inl JSONDecodeError"
    and blocks: "findall_blocks (strip response) = pre @ block # post"
    and earlier: "\<forall>b\<in>set pre. loads (strip b) = Inl JSONDecodeError"
    and parses: "loads (strip block) = Inr v"
  shows "app_extract_json_from_response loads response = Inr v
         \<and> app2_extract_json_from_response loads response = Inr v"
proof -
  let ?pre = "strip response # map strip pre"
  let ?post = "map strip post @ braces_texts (strip response)"
  have a2: "app2_attempts response = ?pre @ strip block # ?post"
    by (simp add: app2_attempts_blocks blocks)
  have fails: "\<forall>x\<in>set ?pre. loads x = Inl JSONDecodeError"
    using direct earlier by simp
  have t2: "try_all loads (app2_attempts response) = Inr (Some v)"
    unfolding a2 by (rule try_all_first [OF fails parses])
  have t1: "try_all loads (app_attempts response) = Inr (Some v)"
    by (simp add: app_attempts_def try_all_append t2)
  show ?thesis
    by (simp add: app_extract_cascade app2_extract_cascade t1 t2)
qed

text \<open>The example of the specification: a tagged fence between two lines of prose.\<close>

theorem fenced_block_first_parse_witness:
  \<open>json_loads 1000
      (strip ''Here is the schema:\<newline>```json\<newline>{"schema_type":"nosql","collections":[]}\<newline>```\<newline>Enjoy!'')
     = Inl JSONDecodeError
   \<and> findall_blocks
      (strip ''Here is the schema:\<newline>```json\<newline>{"schema_type":"nosql","collections":[]}\<newline>```\<newline>Enjoy!'')
     = [] @ ''{"schema_type":"nosql","collections":[]}'' # []
   \<and> list_all (\<lambda>b. json_loads 1000 (strip b) = Inl JSONDecodeError) []
   \<and> json_loads 1000 (strip ''{"schema_type":"nosql","collections":[]}'')
     = Inr (JObj [(''schema_type'', JStr ''nosql''), (''collections'', JArr [])])
   \<and> app_extract_json_from_response (json_loads 1000)
      ''Here is the schema:\<newline>```json\<newline>{"schema_type":"nosql","collections":[]}\<newline>```\<newline>Enjoy!''
     = Inr (JObj [(''schema_type'', JStr ''nosql''), (''collections'', JArr [])])
   \<and> app2_extract_json_from_response (json_loads 1000)
      ''Here is the schema:\<newline>```json\<newline>{"schema_type":"nosql","collections":[]}\<newline>```\<newline>Enjoy!''
     = Inr (JObj [(''schema_type'', JStr ''nosql''), (''collections'', JArr [])])\<close>
proof -
  let ?r = \<open>''Here is the schema:\<newline>```json\<newline>{"schema_type":"nosql","collections":[]}\<newline>```\<newline>Enjoy!''\<close>
  let ?b = \<open>''{"schema_type":"nosql","collections":[]}''\<close>
  have h1: "json_loads 1000 (strip ?r) = Inl JSONDecodeError"
    by code_simp
  have h2: "findall_blocks (strip ?r) = [] @ ?b # []"
    by code_simp
  have h3: "\<forall>b\<in>set []. json_loads 1000 (strip b) = Inl JSONDecodeError"
    by simp
  have h4: "json_loads 1000 (strip ?b)
            = Inr (JObj [(''schema_type'', JStr ''nosql''), (''collections'', JArr [])])"
    by code_simp
  show ?thesis
    unfolding list_all_iff
    using h1 h2 h3 h4 fenced_block_first_parse [of "json_loads 1000" ?r "[]" ?b "[]", OF h1 h2 h3 h4]
    by blast
qed

section \<open>Brace slice and comma repair\<close>

text \<open>
  C6. When the direct parse and every fenced block fail, and the text has a first \<open>{\<close> at
  index \<open>i\<close> and a last \<open>}\<close> at index \<open>j\<close> with \<open>i \<le> j\<close>, the substring from \<open>i\<close> to \<open>j\<close>
  inclusive is parsed; when that fails, the substring after the repair is parsed, and the
  repair removes the commas that a closing brace or bracket follows, white space
  ignored. Whichever parses first is the result of both extractors.
\<close>

theorem brace_slice_then_repair:
  assumes direct: "loads (strip response) = Inl JSONDecodeError"
    and blocks: "\<forall>b\<in>set (findall_blocks (strip response)). loads (strip b) = Inl JSONDecodeError"
    and first: "find CHR ''{'' (strip response) = i"
    and last: "rfind CHR ''}'' (strip response) = j"
    and order: "0 \<le> i \<and> i \<le> j"
    and sub: "sub = slice (strip response) i (j + 1)"
  shows "strip response ! nat i = CHR ''{''
         \<and> (\<forall>k<nat i. strip response ! k \<noteq> CHR ''{'')
         \<and> strip response ! nat j = CHR ''}''
         \<and> (\<forall>k. nat j < k \<and> k < length (strip response) \<longrightarrow> strip response ! k \<noteq> CHR ''}'')
         \<and> sub = map (\<lambda>k. strip response ! k) [nat i..<Suc (nat j)]
         \<and> no_space (fix_commas sub) = spec_drop_trailing_commas (no_space sub)
         \<and> (loads sub = Inr v \<longrightarrow>
            app_extract_json_from_response loads response = Inr v
            \<and> app2_extract_json_from_response loads response = Inr v)
         \<and> (loads sub = Inl JSONDecodeError \<and> loads (fix_commas sub) = Inr v \<longrightarrow>
            app_extract_json_from_response loads response = Inr v
            \<and> app2_extract_json_from_response loads response = Inr v)"
proof -
  let ?c = "strip response"
  let ?pre = "?c # map strip (findall_blocks ?c)"
  have open_in: "CHR ''{'' \<in> set ?c"
    using first order find_present [of "CHR ''{''" ?c] by auto
  have close_in: "CHR ''}'' \<in> set ?c"
    using last order rfind_present [of "CHR ''}''" ?c] by auto
  from find_first [OF open_in] first obtain i' where
    i': "i = int i'" "i' < length ?c" "?c ! i' = CHR ''{''" "\<forall>k<i'. ?c ! k \<noteq> CHR ''{''"
    by auto
  from rfind_last [OF close_in] last obtain j' where
    j': "j = int j'" "j' < length ?c" "?c ! j' = CHR ''}''"
        "\<forall>k. j' < k \<and> k < length ?c \<longrightarrow> ?c ! k \<noteq> CHR ''}''"
    by auto
  have le: "i' \<le> j'"
    using order i'(1) j'(1) by simp
  have incl: "sub = map (\<lambda>k. ?c ! k) [nat i..<Suc (nat j)]"
    using slice_inclusive [OF le j'(2)] sub i'(1) j'(1) by simp
  have places: "?c ! nat i = CHR ''{'' \<and> (\<forall>k<nat i. ?c ! k \<noteq> CHR ''{'')
                \<and> ?c ! nat j = CHR ''}''
                \<and> (\<forall>k. nat j < k \<and> k < length ?c \<longrightarrow> ?c ! k \<noteq> CHR ''}'')"
    using i' j' by simp
  have bt: "braces_texts ?c = [sub, fix_commas sub]"
    using first last order sub by (auto simp: braces_texts_def Let_def)
  have a2: "app2_attempts response = ?pre @ [sub, fix_commas sub]"
    by (simp add: app2_attempts_blocks bt)
  have fails: "\<forall>x\<in>set ?pre. loads x = Inl JSONDecodeError"
    using direct blocks by simp
  have res: "try_all loads (app2_attempts response) = Inr (Some v) \<Longrightarrow>
             app_extract_json_from_response loads response = Inr v
             \<and> app2_extract_json_from_response loads response = Inr v"
    by (simp add: app_extract_cascade app2_extract_cascade app_attempts_def try_all_append)
  have one: "loads sub = Inr v \<Longrightarrow> try_all loads (app2_attempts response) = Inr (Some v)"
    unfolding a2 using try_all_first [OF fails, of sub v "[fix_commas sub]"] by simp
  have two: "loads sub = Inl JSONDecodeError \<Longrightarrow> loads (fix_commas sub) = Inr v
             \<Longrightarrow> try_all loads (app2_attempts response) = Inr (Some v)"
  proof -
    assume s: "loads sub = Inl JSONDecodeError" and f: "loads (fix_commas sub) = Inr v"
    have "\<forall>x\<in>set (?pre @ [sub]). loads x = Inl JSONDecodeError"
      using fails s by simp
    from try_all_first [OF this f, of "[]"] show ?thesis
      unfolding a2 by simp
  qed
  have parse: "(loads sub = Inr v \<longrightarrow>
            app_extract_json_from_response loads response = Inr v
            \<and> app2_extract_json_from_response loads response = Inr v)
         \<and> (loads sub = Inl JSONDecodeError \<and> loads (fix_commas sub) = Inr v \<longrightarrow>
            app_extract_json_from_response loads response = Inr v
            \<and> app2_extract_json_from_response loads response = Inr v)"
    using res one two by blast
  show ?thesis
    using places incl fix_commas_spec [of sub] parse by blast
qed

text \<open>The two examples of the specification: prose around an object, and trailing commas.\<close>

theorem brace_slice_then_repair_witness:
  \<open>(json_loads 1000 (strip ''Sure! {"x":1} Hope that helps.'') = Inl JSONDecodeError
    \<and> list_all (\<lambda>b. json_loads 1000 (strip b) = Inl JSONDecodeError)
         (findall_blocks (strip ''Sure! {"x":1} Hope that helps.''))
    \<and> find CHR ''{'' (strip ''Sure! {"x":1} Hope that helps.'') = 6
    \<and> rfind CHR ''}'' (strip ''Sure! {"x":1} Hope that helps.'') = 12
    \<and> ''{"x":1}'' = slice (strip ''Sure! {"x":1} Hope that helps.'') 6 (12 + 1)
    \<and> json_loads 1000 ''{"x":1}'' = Inr (JObj [(''x'', JInt 1)])
    \<and> app_extract_json_from_response (json_loads 1000) ''Sure! {"x":1} Hope that helps.''
        = Inr (JObj [(''x'', JInt 1)])
    \<and> app2_extract_json_from_response (json_loads 1000) ''Sure! {"x":1} Hope that helps.''
        = Inr (JObj [(''x'', JInt 1)]))
   \<and> (json_loads 1000 (strip ''{"a": [1,2,],}'') = Inl JSONDecodeError
    \<and> list_all (\<lambda>b. json_loads 1000 (strip b) = Inl JSONDecodeError)
         (findall_blocks (strip ''{"a": [1,2,],}''))
    \<and> find CHR ''{'' (strip ''{"a": [1,2,],}'') = 0
    \<and> rfind CHR ''}'' (strip ''{"a": [1,2,],}'') = 13
    \<and> ''{"a": [1,2,],}'' = slice (strip ''{"a": [1,2,],}'') 0 (13 + 1)
    \<and> json_loads 1000 ''{"a": [1,2,],}'' = Inl JSONDecodeError
    \<and> fix_commas ''{"a": [1,2,],}'' = ''{"a": [1,2]}''
    \<and> json_loads 1000 (fix_commas ''{"a": [1,2,],}'') = Inr (JObj [(''a'', JArr [JInt 1, JInt 2])])
    \<and> app_extract_json_from_response (json_loads 1000) ''{"a": [1,2,],}''
        = Inr (JObj [(''a'', JArr [JInt 1, JInt 2])])
    \<and> app2_extract_json_from_response (json_loads 1000) ''{"a": [1,2,],}''
        = Inr (JObj [(''a'', JArr [JInt 1, JInt 2])]))\<close>
proof -
  let ?r = \<open>''Sure! {"x":1} Hope that helps.''\<close>
  let ?s = \<open>''{"x":1}''\<close>
  let ?q = \<open>''{"a": [1,2,],}''\<close>
  have a1: "json_loads 1000 (strip ?r) = Inl JSONDecodeError" by code_simp
  have a2: "\<forall>b\<in>set (findall_blocks (strip ?r)). json_loads 1000 (strip b) = Inl JSONDecodeError"
    by code_simp
  have a3: "find CHR ''{'' (strip ?r) = 6" by code_simp
  have a4: "rfind CHR ''}'' (strip ?r) = 12" by code_simp
  have a5: "(0::int) \<le> 6 \<and> (6::int) \<le> 12" by simp
  have a6: "?s = slice (strip ?r) 6 (12 + 1)" by code_simp
  have a7: "json_loads 1000 ?s = Inr (JObj [(''x'', JInt 1)])" by code_simp
  have b1: "json_loads 1000 (strip ?q) = Inl JSONDecodeError" by code_simp
  have b2: "\<forall>b\<in>set (findall_blocks (strip ?q)). json_loads 1000 (strip b) = Inl JSONDecodeError"
    by code_simp
  have b3: "find CHR ''{'' (strip ?q) = 0" by code_simp
  have b4: "rfind CHR ''}'' (strip ?q) = 13" by code_simp
  have b5: "(0::int) \<le> 0 \<and> (0::int) \<le> 13" by simp
  have b6: "?q = slice (strip ?q) 0 (13 + 1)" by code_simp
  have b7: "json_loads 1000 ?q = Inl JSONDecodeError" by code_simp
  have b8: \<open>fix_commas ?q = ''{"a": [1,2]}''\<close> by code_simp
  have b9: "json_loads 1000 (fix_commas ?q) = Inr (JObj [(''a'', JArr [JInt 1, JInt 2])])"
    by code_simp
  have first_example:
    "app_extract_json_from_response (json_loads 1000) ?r = Inr (JObj [(''x'', JInt 1)])
     \<and> app2_extract_json_from_response (json_loads 1000) ?r = Inr (JObj [(''x'', JInt 1)])"
    using brace_slice_then_repair
      [of "json_loads 1000" ?r 6 12 ?s "JObj [(''x'', JInt 1)]", OF a1 a2 a3 a4 a5 a6] a7
    by blast
  have second_example:
    "app_extract_json_from_response (json_loads 1000) ?q
       = Inr (JObj [(''a'', JArr [JInt 1, JInt 2])])
     \<and> app2_extract_json_from_response (json_loads 1000) ?q
       = Inr (JObj [(''a'', JArr [JInt 1, JInt 2])])"
    using brace_slice_then_repair
      [of "json_loads 1000" ?q 0 13 ?q "JObj [(''a'', JArr [JInt 1, JInt 2])]",
       OF b1 b2 b3 b4 b5 b6] b7 b9
    by blast
  show ?thesis
    unfolding list_all_iff
    using a1 a2 a3 a4 a6 a7 b1 b2 b3 b4 b6 b7 b8 b9 first_example second_example
    by blast
qed

section \<open>Line accumulation\<close>

text \<open>
  C7. In src/app.py, when every earlier strategy fails, the lines are scanned:
  accumulation begins at the first line whose trimmed form starts with \<open>{\<close>, and at each
  accumulated line whose trimmed form ends with \<open>}\<close> everything accumulated so far is
  parsed (\<open>spec_line_candidates\<close> lists these texts in order). A failed parse does not
  stop the scan: the result is the first text that parses, and the failure mapping
  when none does.
\<close>

theorem line_scan_retries_until_parse:
  assumes earlier: "\<forall>t\<in>set (app2_attempts response). loads t = Inl JSONDecodeError"
  shows "(spec_line_candidates (split_lines (strip response)) = pre @ t # post
          \<and> (\<forall>x\<in>set pre. loads x = Inl JSONDecodeError) \<and> loads t = Inr v
          \<longrightarrow> app_extract_json_from_response loads response = Inr v)
         \<and> ((\<forall>x\<in>set (spec_line_candidates (split_lines (strip response))).
                loads x = Inl JSONDecodeError)
          \<longrightarrow> app_extract_json_from_response loads response
              = Inr (app_failure (strip response)))"
proof -
  have e: "try_all loads (app2_attempts response) = Inr None"
    by (rule try_all_all_fail [OF earlier])
  have c: "app_extract_json_from_response loads response =
             (case try_all loads (spec_line_candidates (split_lines (strip response))) of
                Inl e \<Rightarrow> Inl e
              | Inr (Some v) \<Rightarrow> Inr v
              | Inr None \<Rightarrow> Inr (app_failure (strip response)))"
    by (simp add: app_extract_cascade app_attempts_def try_all_append e)
  show ?thesis
    using c try_all_first [of pre loads t v post] try_all_all_fail [of _ loads]
    by auto
qed

text \<open>
  An object whose second line closes only the nested object: the parse at that line
  fails, the scan goes on, and the parse at the fourth line succeeds.
\<close>

theorem line_scan_retries_until_parse_witness:
  \<open>list_all (\<lambda>t. json_loads 1000 t = Inl JSONDecodeError)
     (app2_attempts ''{"a": {"b": 1\<newline>}\<newline>, "c": 2\<newline>}\<newline>oops }'')
   \<and> spec_line_candidates (split_lines (strip ''{"a": {"b": 1\<newline>}\<newline>, "c": 2\<newline>}\<newline>oops }''))
       = [''{"a": {"b": 1\<newline>}''] @ ''{"a": {"b": 1\<newline>}\<newline>, "c": 2\<newline>}''
           # [''{"a": {"b": 1\<newline>}\<newline>, "c": 2\<newline>}\<newline>oops }'']
   \<and> list_all (\<lambda>x. json_loads 1000 x = Inl JSONDecodeError) [''{"a": {"b": 1\<newline>}'']
   \<and> json_loads 1000 ''{"a": {"b": 1\<newline>}\<newline>, "c": 2\<newline>}''
       = Inr (JObj [(''a'', JObj [(''b'', JInt 1)]), (''c'', JInt 2)])
   \<and> app_extract_json_from_response (json_loads 1000)
        ''{"a": {"b": 1\<newline>}\<newline>, "c": 2\<newline>}\<newline>oops }''
       = Inr (JObj [(''a'', JObj [(''b'', JInt 1)]), (''c'', JInt 2)])\<close>
proof -
  let ?r = \<open>''{"a": {"b": 1\<newline>}\<newline>, "c": 2\<newline>}\<newline>oops }''\<close>
  let ?p = \<open>''{"a": {"b": 1\<newline>}''\<close>
  let ?t = \<open>''{"a": {"b": 1\<newline>}\<newline>, "c": 2\<newline>}''\<close>
  let ?v = "JObj [(''a'', JObj [(''b'', JInt 1)]), (''c'', JInt 2)]"
  have h1: "\<forall>t\<in>set (app2_attempts ?r). json_loads 1000 t = Inl JSONDecodeError"
    by code_simp
  have h2: "spec_line_candidates (split_lines (strip ?r)) = [?p] @ ?t # [?r]"
    by code_simp
  have h3: "\<forall>x\<in>set [?p]. json_loads 1000 x = Inl JSONDecodeError"
    by code_simp
  have h4: "json_loads 1000 ?t = Inr ?v"
    by code_simp
  have "app_extract_json_from_response (json_loads 1000) ?r = Inr ?v"
    using line_scan_retries_until_parse [of ?r "json_loads 1000" "[?p]" ?t "[?r]" ?v, OF h1]
      h2 h3 h4
    by blast
  then show ?thesis
    unfolding list_all_iff
    using h1 h2 h3 h4 by blast
qed

text \<open>
  The copy of the extractor in src/app2.py has no line scan: on the same text it
  returns its failure mapping.
\<close>

theorem app2_has_no_line_scan:
  \<open>app2_extract_json_from_response (json_loads 1000)
      ''{"a": {"b": 1\<newline>}\<newline>, "c": 2\<newline>}\<newline>oops }''
    = Inr (JObj [(''error'', JStr ''Failed to extract valid JSON from response''),
                 (''raw_response'',
                  JStr ''{"a": {"b": 1\<newline>}\<newline>, "c": 2\<newline>}\<newline>oops }...'')])\<close>
  by code_simp

section \<open>The two copies of the extractor\<close>

text \<open>
  C8 as stated fails: the two copies differ. On a text whose first line is a complete
  object and whose second line is a stray brace, the four shared strategies fail; the
  line scan of src/app.py then returns the object, and src/app2.py, which has no line
  scan, returns its failure mapping.
\<close>

theorem extractors_differ:
  \<open>app_extract_json_from_response (json_loads 1000) ''{"a":1}\<newline>}''
     = Inr (JObj [(''a'', JInt 1)])
   \<and> app2_extract_json_from_response (json_loads 1000) ''{"a":1}\<newline>}''
     = Inr (JObj [(''error'', JStr ''Failed to extract valid JSON from response''),
                  (''raw_response'', JStr ''{"a":1}\<newline>}...'')])\<close>
  by code_simp

text \<open>
  C8, amended. Whenever src/app2.py returns anything but its failure mapping, a parsed
  value or an exception of the decoder, src/app.py returns the same; and src/app2.py
  returns its failure mapping when the decoder refuses the texts of the four strategies
  the copies share, where src/app.py goes on to the line scan.
\<close>

theorem extractors_agree_on_shared_strategies:
  "(app2_extract_json_from_response loads response \<noteq> Inr (app2_failure (strip response))
      \<longrightarrow> app_extract_json_from_response loads response
          = app2_extract_json_from_response loads response)
   \<and> ((\<forall>t\<in>set (app2_attempts response). loads t = Inl JSONDecodeError)
      \<longrightarrow> app2_extract_json_from_response loads response
          = Inr (app2_failure (strip response)))"
proof (intro conjI impI)
  assume a: "app2_extract_json_from_response loads response
             \<noteq> Inr (app2_failure (strip response))"
  show "app_extract_json_from_response loads response
        = app2_extract_json_from_response loads response"
  proof (cases "try_all loads (app2_attempts response)")
    case (Inl e)
    then show ?thesis
      by (simp add: app_extract_cascade app2_extract_cascade app_attempts_def try_all_append)
  next
    case (Inr res)
    with a obtain v where "res = Some v"
      by (cases res) (simp_all add: app2_extract_cascade)
    with Inr show ?thesis
      by (simp add: app_extract_cascade app2_extract_cascade app_attempts_def try_all_append)
  qed
next
  assume "\<forall>t\<in>set (app2_attempts response). loads t = Inl JSONDecodeError"
  then show "app2_extract_json_from_response loads response
             = Inr (app2_failure (strip response))"
    by (rule app2_extract_all_fail)
qed

text \<open>Prose around an object: the brace slice decides in both copies.\<close>

theorem extractors_agree_on_shared_strategies_witness:
  \<open>(app2_extract_json_from_response (json_loads 1000) ''Sure! {"x":1} Hope that helps.''
      \<noteq> Inr (app2_failure (strip ''Sure! {"x":1} Hope that helps.''))
    \<and> app_extract_json_from_response (json_loads 1000) ''Sure! {"x":1} Hope that helps.''
      = app2_extract_json_from_response (json_loads 1000) ''Sure! {"x":1} Hope that helps.'')
   \<and> (list_all (\<lambda>t. json_loads 1000 t = Inl JSONDecodeError)
       (app2_attempts ''I cannot help with that.'')
    \<and> app2_extract_json_from_response (json_loads 1000) ''I cannot help with that.''
      = Inr (app2_failure (strip ''I cannot help with that.'')))\<close>
proof -
  let ?r = \<open>''Sure! {"x":1} Hope that helps.''\<close>
  let ?n = \<open>''I cannot help with that.''\<close>
  have h1: "app2_extract_json_from_response (json_loads 1000) ?r
            \<noteq> Inr (app2_failure (strip ?r))"
    by code_simp
  have h2: "\<forall>t\<in>set (app2_attempts ?n). json_loads 1000 t = Inl JSONDecodeError"
    by code_simp
  show ?thesis
    unfolding list_all_iff
    using h1 h2
      extractors_agree_on_shared_strategies [of "json_loads 1000" ?r]
      extractors_agree_on_shared_strategies [of "json_loads 1000" ?n]
    by blast
qed

section \<open>Relationship types\<close>

text \<open>
  C9 as stated fails: \<open>one-to-one\<close> becomes \<open>ONE:TO:ONE\<close>, which is none of the six tokens,
  so it gets the generic connector and not the connector of \<open>1:1\<close> and \<open>ONE_TO_ONE\<close>.
\<close>

theorem one_to_one_with_hyphens_is_generic:
  "connector_of (normalize_rel_type ''1:1'') = ''||--||''
   \<and> connector_of (normalize_rel_type ''ONE_TO_ONE'') = ''||--||''
   \<and> normalize_rel_type ''one-to-one'' = ''ONE:TO:ONE''
   \<and> connector_of (normalize_rel_type ''one-to-one'') = ''--''
   \<and> create_mermaid_diagram plain_interp
        (JObj [(''schema_type'', JStr ''relational''),
               (''tables'',
                JArr [JObj [(''name'', JStr ''a''),
                            (''relationships'',
                             JArr [JObj [(''type'', JStr ''one-to-one''),
                                         (''related_to'', JStr ''b''),
                                         (''field'', JStr ''f'')]])]])])
     = Inr (join_lines [''erDiagram'', ''a {'', ''}'', ''a -- b : '' @ [CHR 0x22] @ ''f'' @ [CHR 0x22]])"
  by code_simp

text \<open>
  C9, amended. The type is upper-cased and its hyphens become colons; \<open>1:1\<close>, \<open>ONE_TO_ONE\<close>,
  \<open>one_to_one\<close> and \<open>1-1\<close> get the same connector; \<open>one-to-one\<close> and \<open>weird\<close>, like every
  token whose normal form is none of the six, get the generic connector \<open>--\<close>; and the
  relationship line of a dict is built without raising.
\<close>

theorem relationship_connectors:
  "connector_of (normalize_rel_type ''1:1'') = ''||--||''
   \<and> connector_of (normalize_rel_type ''ONE_TO_ONE'') = ''||--||''
   \<and> connector_of (normalize_rel_type ''one_to_one'') = ''||--||''
   \<and> connector_of (normalize_rel_type ''1-1'') = ''||--||''
   \<and> connector_of (normalize_rel_type ''one-to-one'') = ''--''
   \<and> connector_of (normalize_rel_type ''weird'') = ''--''
   \<and> (normalize_rel_type t
         \<notin> set [''1:1'', ''ONE_TO_ONE'', ''1:N'', ''ONE_TO_MANY'', ''M:N'', ''MANY_TO_MANY'']
       \<longrightarrow> connector_of (normalize_rel_type t) = ''--'')
   \<and> (is_dict item \<and> is_dict rel \<longrightarrow> (\<exists>l. mermaid_rel ip item rel = Inr [l]))"
proof -
  have ev: "connector_of (normalize_rel_type ''1:1'') = ''||--||''
     \<and> connector_of (normalize_rel_type ''ONE_TO_ONE'') = ''||--||''
     \<and> connector_of (normalize_rel_type ''one_to_one'') = ''||--||''
     \<and> connector_of (normalize_rel_type ''1-1'') = ''||--||''
     \<and> connector_of (normalize_rel_type ''one-to-one'') = ''--''
     \<and> connector_of (normalize_rel_type ''weird'') = ''--''"
    by code_simp
  have gen: "normalize_rel_type t
         \<notin> set [''1:1'', ''ONE_TO_ONE'', ''1:N'', ''ONE_TO_MANY'', ''M:N'', ''MANY_TO_MANY'']
       \<longrightarrow> connector_of (normalize_rel_type t) = ''--''"
    by (simp add: connector_of_def)
  have total: "is_dict item \<and> is_dict rel \<longrightarrow> (\<exists>l. mermaid_rel ip item rel = Inr [l])"
    by (cases item; cases rel) (simp_all add: is_dict_def mermaid_rel_def py_get_def)
  show ?thesis
    using ev gen total by blast
qed

theorem relationship_connectors_witness:
  "normalize_rel_type ''weird''
     \<notin> set [''1:1'', ''ONE_TO_ONE'', ''1:N'', ''ONE_TO_MANY'', ''M:N'', ''MANY_TO_MANY'']
   \<and> connector_of (normalize_rel_type ''weird'') = ''--''
   \<and> is_dict (JObj [(''name'', JStr ''a'')]) \<and> is_dict (JObj [(''type'', JStr ''weird'')])
   \<and> (\<exists>l. mermaid_rel plain_interp (JObj [(''name'', JStr ''a'')])
               (JObj [(''type'', JStr ''weird'')]) = Inr [l])"
proof -
  have h1: "normalize_rel_type ''weird''
     \<notin> set [''1:1'', ''ONE_TO_ONE'', ''1:N'', ''ONE_TO_MANY'', ''M:N'', ''MANY_TO_MANY'']"
    by code_simp
  have h2: "is_dict (JObj [(''name'', JStr ''a'')]) \<and> is_dict (JObj [(''type'', JStr ''weird'')])"
    by (simp add: is_dict_def)
  show ?thesis
    using h1 h2
      relationship_connectors [of "''weird''" "JObj [(''name'', JStr ''a'')]"
                                  "JObj [(''type'', JStr ''weird'')]" plain_interp]
    by blast
qed

section \<open>Missing keys in the diagram builders\<close>

lemma for_each_total:
  "(\<forall>x\<in>set xs. \<exists>y. f x = Inr y) \<Longrightarrow> \<exists>ys. for_each f xs = Inr ys"
  by (induction xs) auto

text \<open>
  \<open>create_mermaid_diagram\<close> of src/app2.py reads every key with a default and catches
  what its body raises: on a mapping it always returns a diagram.
\<close>

lemma create_mermaid_diagram_total:
  "\<exists>d. create_mermaid_diagram ip (JObj kvs) = Inr d"
  by (simp add: create_mermaid_diagram_def py_get_def split: sum.splits)

text \<open>
  C10. \<open>create_er_diagram\<close> of src/app.py reads \<open>name\<close>, \<open>type\<close>, \<open>related_to\<close> and \<open>field\<close> by
  index, with no default: a table without \<open>name\<close> raises \<open>KeyError\<close>, where
  \<open>create_mermaid_diagram\<close> puts in \<open>unnamed\<close>.
\<close>

theorem create_er_diagram_raises_on_missing_name:
  "create_er_diagram ip
     (JObj [(''schema_type'', JStr ''relational''),
            (''tables'', JArr [JObj [(''fields'', JArr [])]])])
     = Inl (KeyError ''name'')
   \<and> create_mermaid_diagram ip
     (JObj [(''schema_type'', JStr ''relational''),
            (''tables'', JArr [JObj [(''fields'', JArr [])]])])
     = Inr (join_lines [''erDiagram'', ''unnamed {'', ''}''])"
  by (simp add: create_er_diagram_def create_mermaid_diagram_def py_get_def dict_get_def
        py_truthy_def schema_items_def py_iter_def er_node_def py_index_def
        mermaid_body_def mermaid_entity_def mermaid_rels_def is_dict_def py_str_def)

end
